theory Spec2Isabelle
  imports Complex_Main "HOL-Library.Multiset"
begin

section \<open>Record model (types.ts)\<close>

text \<open>
  The five categories, in the order of the enum \<^verbatim>\<open>CategoryId\<close>. Every session log is
  built by \<^verbatim>\<open>DailyCheckIn\<close> with its keys inserted in this order, so
  \<^verbatim>\<open>Object.values\<close> and \<^verbatim>\<open>Object.entries\<close> of \<^verbatim>\<open>log.categories\<close> enumerate the
  categories as \<open>catOrder\<close> does.
\<close>

datatype CategoryId = Speech | Politics | Common | Logic | Data

definition catOrder :: "CategoryId list" where
  "catOrder = [Speech, Politics, Common, Logic, Data]"

text \<open>
  A JavaScript \<^verbatim>\<open>number\<close> holding a count is an \<open>int\<close> here. The accuracy percentage,
  which is rounded to an integer, is computed as the IEEE doubles of the runtime are
  (section "Numbers of the JavaScript runtime"); the percentages that
  \<^verbatim>\<open>getWeakestCategory\<close> compares are exact \<open>real\<close> numbers.
\<close>

record QuestionRecord =
  total :: int
  correct :: int
  duration :: int

text \<open>
  \<^verbatim>\<open>DailyLog\<close>. The field \<^verbatim>\<open>date\<close> is documented in types.ts as an
  "ISO Date String YYYY-MM-DD"; it is modelled by the number of that calendar day
  (days since 1970-01-01). The field \<^verbatim>\<open>timestamp\<close> is in milliseconds since the epoch.
  Field names shared by several interfaces carry a prefix.
\<close>

record DailyLog =
  log_id :: string
  log_date :: int
  categories :: "CategoryId \<Rightarrow> QuestionRecord"
  log_timestamp :: int

record ExamTarget =
  tgt_id :: string
  tgt_name :: string
  examDate :: string
  color :: string
  createdAt :: int

record ReviewNote =
  rev_id :: string
  rev_date :: string
  content :: string
  targetId :: string
  rev_timestamp :: int

record AppState =
  targets :: "ExamTarget list"
  selectedTargetId :: "string option"
  logs :: "string \<rightharpoonup> DailyLog list"
  reviews :: "string \<rightharpoonup> ReviewNote list"

section \<open>Dates of the JavaScript runtime\<close>

text \<open>
  A \<^verbatim>\<open>Date\<close> is its time value, an \<open>int\<close> of milliseconds since the epoch.
  For the range and chart functions the local time zone is a fixed offset \<open>tz\<close> in
  milliseconds (local time is UTC plus \<open>tz\<close>); the streak takes a \<open>Zone\<close>, defined at
  the end of this section, whose days may differ in length. A date string chosen in an
  \<^verbatim>\<open><input type="date">\<close> is either empty or a calendar day.
\<close>

datatype datestr = Blank | Ymd int

definition msPerDay :: int where
  "msPerDay = 86400000"

text \<open>\<^verbatim>\<open>format(d, 'yyyy-MM-dd')\<close>: the local calendar day of a time value.\<close>

definition localDay :: "int \<Rightarrow> int \<Rightarrow> int" where
  "localDay tz t = (t + tz) div msPerDay"

text \<open>\<^verbatim>\<open>new Date(y, m - 1, d).getTime()\<close>: local midnight of a calendar day.\<close>

definition localMidnight :: "int \<Rightarrow> int \<Rightarrow> int" where
  "localMidnight tz d = d * msPerDay - tz"

text \<open>
  \<^verbatim>\<open>new Date('YYYY-MM-DD').getTime()\<close>: a date-only ISO string is read as UTC midnight.
  \<^verbatim>\<open>new Date('')\<close> is an invalid date, whose time value is NaN (\<open>None\<close>).
\<close>

fun newDate :: "datestr \<Rightarrow> int option" where
  "newDate Blank = None"
| "newDate (Ymd d) = Some (d * msPerDay)"

text \<open>\<^verbatim>\<open>d.setHours(0,0,0,0)\<close> and \<^verbatim>\<open>d.setHours(23,59,59,999)\<close>, as time values.\<close>

definition setHours0 :: "int \<Rightarrow> int \<Rightarrow> int" where
  "setHours0 tz t = localMidnight tz (localDay tz t)"

definition setHoursEnd :: "int \<Rightarrow> int \<Rightarrow> int" where
  "setHoursEnd tz t = localMidnight tz (localDay tz t) + (msPerDay - 1)"

text \<open>
  \<^verbatim>\<open>parseLocal\<close> (StatsDashboard.tsx, ReviewSection): the empty string gives the current
  time \<open>now\<close>, a date-only string gives local midnight of that day.
\<close>

fun parseLocal :: "int \<Rightarrow> int \<Rightarrow> datestr \<Rightarrow> int" where
  "parseLocal now tz Blank = now"
| "parseLocal now tz (Ymd d) = localMidnight tz d"

definition getStartOfDay :: "int \<Rightarrow> int \<Rightarrow> int" where
  "getStartOfDay tz t = setHours0 tz t"

definition getEndOfDay :: "int \<Rightarrow> int \<Rightarrow> int" where
  "getEndOfDay tz t = setHoursEnd tz t"

text \<open>Comparisons of a number with a possibly-NaN bound: every comparison with NaN is false.\<close>

fun js_lt :: "int \<Rightarrow> int option \<Rightarrow> bool" where
  "js_lt t None = False"
| "js_lt t (Some b) = (t < b)"

fun js_gt :: "int \<Rightarrow> int option \<Rightarrow> bool" where
  "js_gt t None = False"
| "js_gt t (Some b) = (t > b)"

fun js_le :: "int \<Rightarrow> int option \<Rightarrow> bool" where
  "js_le t None = False"
| "js_le t (Some b) = (t \<le> b)"

fun js_ge :: "int \<Rightarrow> int option \<Rightarrow> bool" where
  "js_ge t None = False"
| "js_ge t (Some b) = (t \<ge> b)"

text \<open>
  The streak compares the distance of two local midnights with 24 hours, so it depends on
  the length of the local days, which a fixed offset cannot vary. For it a time zone is given
  by two functions: the time value of local midnight of each calendar day, and the local
  calendar day of each time value. \<open>zSetHours0\<close> is \<^verbatim>\<open>d.setHours(0,0,0,0)\<close>, \<open>zParseLocal\<close>
  is \<^verbatim>\<open>parseLocal\<close>, and \<open>zSetDate\<close> is \<^verbatim>\<open>d.setDate(d.getDate() + n)\<close>, which moves to
  another calendar day and keeps the local time of day, taken here as the time elapsed since
  local midnight; the program applies it to local midnights only. \<open>fixedZone\<close> is the zone
  of a fixed offset.
\<close>

record Zone =
  midnightOf :: "int \<Rightarrow> int"
  dayOf :: "int \<Rightarrow> int"

definition fixedZone :: "int \<Rightarrow> Zone" where
  "fixedZone tz = \<lparr> midnightOf = localMidnight tz, dayOf = localDay tz \<rparr>"

definition zSetHours0 :: "Zone \<Rightarrow> int \<Rightarrow> int" where
  "zSetHours0 z t = midnightOf z (dayOf z t)"

fun zParseLocal :: "int \<Rightarrow> Zone \<Rightarrow> datestr \<Rightarrow> int" where
  "zParseLocal now z Blank = now"
| "zParseLocal now z (Ymd d) = midnightOf z d"

definition zSetDate :: "Zone \<Rightarrow> int \<Rightarrow> int \<Rightarrow> int" where
  "zSetDate z t n = midnightOf z (dayOf z t + n) + (t - midnightOf z (dayOf z t))"

text \<open>
  The zone America/New_York in 2024: local midnight is at 04:00 UTC from 2024-03-11 (day
  19793) to 2024-11-03 (day 20030) and at 05:00 UTC otherwise; daylight saving time runs
  from 2024-03-10 07:00 UTC to 2024-11-03 06:00 UTC.
\<close>

definition newYork2024 :: Zone where
  "newYork2024 =
     \<lparr> midnightOf = (\<lambda>d. d * msPerDay + (if 19793 \<le> d \<and> d \<le> 20030 then 14400000 else 18000000)),
       dayOf = (\<lambda>t. (t - (if 1710054000000 \<le> t \<and> t < 1730613600000 then 14400000 else 18000000))
                        div msPerDay) \<rparr>"

section \<open>Numbers of the JavaScript runtime\<close>

text \<open>
  A JavaScript number is an IEEE 754 binary64 value. An integer of magnitude up to \<open>2^53\<close>
  is such a value exactly. A division and a multiplication return the value nearest to the
  exact result among those with a significand of 53 bits, a tie going to the even
  significand. A finite double is modelled by a fraction: a pair of a numerator and a positive
  denominator. \<open>rnd n d\<close> is the double nearest to the exact fraction \<open>n / d\<close>, for a
  positive \<open>d\<close>: the fraction is scaled by a power of two into the interval from \<open>2^52\<close> to
  \<open>2^53\<close>, rounded to an integer, and scaled back. The exponent is not bounded: between
  integers up to \<open>2^53\<close> no quotient, and no product by 100 of such a quotient, overflows
  or is subnormal. \<open>bits n\<close> is the number of binary digits of \<open>n\<close>.
\<close>

type_synonym double = "int \<times> int"

function bits :: "int \<Rightarrow> nat" where
  "bits n = (if n \<le> 0 then 0 else Suc (bits (n div 2)))"
  by pat_completeness auto

termination bits
  by (relation "measure nat") auto

declare bits.simps [simp del]

text \<open>The integer nearest to \<open>n / d\<close>, the even one of two that are equally near.\<close>

definition roundEven :: "int \<Rightarrow> int \<Rightarrow> int" where
  "roundEven n d =
     (let q = n div d; r = n mod d
      in if 2 * r < d then q else if d < 2 * r then q + 1 else if even q then q else q + 1)"

text \<open>The fraction \<open>n / d\<close> times \<open>2^s\<close>, for an exponent \<open>s\<close> of either sign.\<close>

definition scale :: "int \<Rightarrow> int \<Rightarrow> int \<Rightarrow> int \<times> int" where
  "scale s n d = (if 0 \<le> s then (n * 2 ^ nat s, d) else (n, d * 2 ^ nat (- s)))"

definition rndPos :: "int \<Rightarrow> int \<Rightarrow> double" where
  "rndPos n d =
     (let s0 = 53 - (int (bits n) - int (bits d));
          s = (if 2 ^ 53 * snd (scale s0 n d) \<le> fst (scale s0 n d) then s0 - 1 else s0);
          m = roundEven (fst (scale s n d)) (snd (scale s n d))
      in if 0 \<le> s then (m, 2 ^ nat s) else (m * 2 ^ nat (- s), 1))"

definition rnd :: "int \<Rightarrow> int \<Rightarrow> double" where
  "rnd n d =
     (if n = 0 then (0, 1)
      else if 0 < n then rndPos n d
      else (- fst (rndPos (- n) d), snd (rndPos (- n) d)))"

text \<open>
  An integer as a double, the quotient \<^verbatim>\<open>x / y\<close> of two doubles with a positive \<open>y\<close>, and
  the product \<^verbatim>\<open>x * y\<close>.
\<close>

definition ofInt :: "int \<Rightarrow> double" where
  "ofInt i = (i, 1)"

definition fdiv :: "double \<Rightarrow> double \<Rightarrow> double" where
  "fdiv x y = rnd (fst x * snd y) (snd x * fst y)"

definition fmul :: "double \<Rightarrow> double \<Rightarrow> double" where
  "fmul x y = rnd (fst x * fst y) (snd x * snd y)"

section \<open>Aggregation\<close>

text \<open>
  \<^verbatim>\<open>Math.round\<close> returns the integer nearest to its argument, a half going towards plus
  infinity; it is exact.
  The accuracy expression \<^verbatim>\<open>total > 0 ? Math.round((correct / total) * 100) : 0\<close> occurs
  verbatim in \<^verbatim>\<open>viewStats\<close>, both \<^verbatim>\<open>chartData\<close> and \<^verbatim>\<open>calculateTotal\<close>.
\<close>

definition Math_round :: "double \<Rightarrow> int" where
  "Math_round x = (2 * fst x + snd x) div (2 * snd x)"

definition accuracy :: "int \<Rightarrow> int \<Rightarrow> int" where
  "accuracy tot cor =
     (if tot > 0 then Math_round (fmul (fdiv (ofInt cor) (ofInt tot)) (ofInt 100)) else 0)"
text \<open>
  \<^verbatim>\<open>Object.values(log.categories).forEach(c => { total += c.total; correct += c.correct; })\<close>
  as a left fold over the categories in key order; the accumulator is the pair
  \<open>(total, correct)\<close>.
\<close>

definition addRecord :: "int \<times> int \<Rightarrow> QuestionRecord \<Rightarrow> int \<times> int" where
  "addRecord acc c = (fst acc + total c, snd acc + correct c)"

definition addLogAll :: "int \<times> int \<Rightarrow> DailyLog \<Rightarrow> int \<times> int" where
  "addLogAll acc l = foldl addRecord acc (map (categories l) catOrder)"

text \<open>\<^verbatim>\<open>getTotalQuestions\<close> (StatsDashboard.tsx): two nested \<^verbatim>\<open>reduce\<close> calls.\<close>

definition getTotalQuestions :: "DailyLog list \<Rightarrow> int" where
  "getTotalQuestions ls =
     foldl (\<lambda>acc l. acc + foldl (\<lambda>s cat. s + total cat) 0 (map (categories l) catOrder)) 0 ls"

text \<open>
  \<^verbatim>\<open>calculateStreak\<close> (StatsDashboard.tsx). \<^verbatim>\<open>[...logs].sort((a, b) => b.timestamp - a.timestamp)\<close>
  is a stable sort by descending timestamp. The \<^verbatim>\<open>for\<close> loop is \<open>streakLoop\<close>, with the
  loop variables \<^verbatim>\<open>processedDates\<close>, \<^verbatim>\<open>currentCheckDate\<close> and \<^verbatim>\<open>streak\<close> as arguments;
  \<^verbatim>\<open>continue\<close> goes on with the rest of the list and \<^verbatim>\<open>break\<close> returns the streak.
  \<^verbatim>\<open>currentCheckDate.setDate(currentCheckDate.getDate() - 1)\<close> moves one day back. The
  source adds \<^verbatim>\<open>dateStr\<close> to \<^verbatim>\<open>processedDates\<close> before it compares the dates; the set is
  not read after a \<^verbatim>\<open>break\<close>, so it is extended here where the loop goes on. The time
  zone is a \<open>Zone\<close>; \<^verbatim>\<open>format(logDate, 'yyyy-MM-dd')\<close> is the local day of \<open>logDate\<close>.
\<close>

fun streakLoop :: "int \<Rightarrow> Zone \<Rightarrow> DailyLog list \<Rightarrow> int set \<Rightarrow> int \<Rightarrow> int \<Rightarrow> int" where
  "streakLoop now z [] processedDates currentCheckDate streak = streak"
| "streakLoop now z (l # rest) processedDates currentCheckDate streak =
     (let logDate = zSetHours0 z (zParseLocal now z (Ymd (log_date l)));
          dateStr = dayOf z logDate
      in if dateStr \<in> processedDates
         then streakLoop now z rest processedDates currentCheckDate streak
         else if logDate = currentCheckDate
              then streakLoop now z rest (insert dateStr processedDates)
                     (zSetDate z currentCheckDate (- 1)) (streak + 1)
              else streak)"

definition calculateStreak :: "int \<Rightarrow> Zone \<Rightarrow> DailyLog list \<Rightarrow> int" where
  "calculateStreak now z ls =
     (if length ls = 0 then 0
      else
        let sortedLogs = sort_key (\<lambda>l. - log_timestamp l) ls;
            today = zSetHours0 z now;
            lastLogDate = zSetHours0 z (zParseLocal now z (Ymd (log_date (hd sortedLogs))));
            diffTime = today - lastLogDate;
            diffDays = real_of_int diffTime / (1000 * 3600 * 24)
        in if diffDays > 1 then 0
           else streakLoop now z sortedLogs {} lastLogDate 0)"

text \<open>
  \<^verbatim>\<open>getWeakestCategory\<close> (StatsDashboard.tsx). The object \<^verbatim>\<open>totals\<close> is an association
  list in insertion order, which is the order \<^verbatim>\<open>Object.entries(totals)\<close> enumerates.
  The result is the key whose \<^verbatim>\<open>CategoryMeta\<close> entry the source returns.
\<close>

definition bumpTotals ::
  "(CategoryId \<times> int \<times> int) list \<Rightarrow> CategoryId \<times> QuestionRecord \<Rightarrow> (CategoryId \<times> int \<times> int) list" where
  "bumpTotals totals kv =
     (let key = fst kv; v = snd kv;
          totals1 = (if map_of totals key = None then totals @ [(key, (0, 0))] else totals)
      in map (\<lambda>(k, (t, c)). if k = key then (k, (t + total v, c + correct v)) else (k, (t, c)))
           totals1)"

definition pickWeakest ::
  "real \<times> CategoryId option \<Rightarrow> CategoryId \<times> int \<times> int \<Rightarrow> real \<times> CategoryId option" where
  "pickWeakest st kv =
     (let key = fst kv; valTotal = fst (snd kv); valCorrect = snd (snd kv)
      in if valTotal > 10
         then (let acc = (real_of_int valCorrect / real_of_int valTotal) * 100
               in if acc < fst st then (acc, Some key) else st)
         else st)"

definition accumulateTotals :: "DailyLog list \<Rightarrow> (CategoryId \<times> int \<times> int) list" where
  "accumulateTotals ls =
     foldl (\<lambda>totals l. foldl bumpTotals totals (map (\<lambda>k. (k, categories l k)) catOrder)) [] ls"

definition getWeakestCategory :: "DailyLog list \<Rightarrow> CategoryId option" where
  "getWeakestCategory ls =
     (if length ls = 0 then None
      else snd (foldl pickWeakest (101, None) (accumulateTotals ls)))"

section \<open>Time bucketing\<close>



definition dayAccuracy :: "DailyLog list \<Rightarrow> int" where
  "dayAccuracy dayLogs =
     (if length dayLogs > 0
      then (let tc = foldl addLogAll (0, 0) dayLogs in accuracy (fst tc) (snd tc))
      else 0)"




section \<open>Range query (ReviewSection)\<close>

text \<open>
  \<^verbatim>\<open>filteredData\<close>. \<^verbatim>\<open>log.timestamp || parseLocal(log.date).getTime()\<close> takes the date
  when the timestamp is falsy, that is 0. A note is matched by its timestamp alone.
  The notes are then sorted by descending timestamp.
\<close>

definition periodLogs :: "int \<Rightarrow> int \<Rightarrow> DailyLog list \<Rightarrow> datestr \<Rightarrow> datestr \<Rightarrow> DailyLog list" where
  "periodLogs now tz ls startDate endDate =
     (let start = getStartOfDay tz (parseLocal now tz startDate);
          end = getEndOfDay tz (parseLocal now tz endDate)
      in filter (\<lambda>log.
           let logTs = (if log_timestamp log \<noteq> 0 then log_timestamp log
                        else parseLocal now tz (Ymd (log_date log)))
           in logTs \<ge> start \<and> logTs \<le> end) ls)"

definition periodReviews :: "int \<Rightarrow> int \<Rightarrow> ReviewNote list \<Rightarrow> datestr \<Rightarrow> datestr \<Rightarrow> ReviewNote list" where
  "periodReviews now tz rs startDate endDate =
     (let start = getStartOfDay tz (parseLocal now tz startDate);
          end = getEndOfDay tz (parseLocal now tz endDate)
      in sort_key (\<lambda>r. - rev_timestamp r)
           (filter (\<lambda>note. let t = rev_timestamp note in t \<ge> start \<and> t \<le> end) rs))"

definition filteredData ::
  "int \<Rightarrow> int \<Rightarrow> DailyLog list \<Rightarrow> ReviewNote list \<Rightarrow> datestr \<Rightarrow> datestr
     \<Rightarrow> DailyLog list \<times> ReviewNote list" where
  "filteredData now tz ls rs startDate endDate =
     (periodLogs now tz ls startDate endDate, periodReviews now tz rs startDate endDate)"

text \<open>
  \<^verbatim>\<open>viewStats\<close>. The selected category is \<open>None\<close> for \<^verbatim>\<open>'ALL'\<close>. The accumulator is
  \<open>(totalQuestions, totalCorrect, totalDuration)\<close>. The field \<^verbatim>\<open>avgTimePerQuestion\<close>, a
  string made by \<^verbatim>\<open>toFixed\<close>, is left out.
\<close>

record ViewStats =
  totalQuestions :: int
  vs_accuracy :: int
  totalDuration :: int
  daysActive :: nat

definition addRecord3 :: "int \<times> int \<times> int \<Rightarrow> QuestionRecord \<Rightarrow> int \<times> int \<times> int" where
  "addRecord3 acc c =
     (fst acc + total c, fst (snd acc) + correct c, snd (snd acc) + duration c)"

definition addLogSel3 :: "CategoryId option \<Rightarrow> int \<times> int \<times> int \<Rightarrow> DailyLog \<Rightarrow> int \<times> int \<times> int" where
  "addLogSel3 selectedCategory acc lg =
     (case selectedCategory of
        None \<Rightarrow> foldl addRecord3 acc (map (categories lg) catOrder)
      | Some k \<Rightarrow> addRecord3 acc (categories lg k))"

definition viewStats :: "CategoryId option \<Rightarrow> DailyLog list \<Rightarrow> ViewStats" where
  "viewStats selectedCategory fl =
     (let uniqueDays = length (remdups (map log_date fl));
          acc3 = foldl (addLogSel3 selectedCategory) (0, 0, 0) fl;
          totalQ = fst acc3; totalCorrect = fst (snd acc3); totalD = snd (snd acc3)
      in \<lparr> totalQuestions = totalQ, vs_accuracy = accuracy totalQ totalCorrect,
           totalDuration = totalD, daysActive = uniqueDays \<rparr>)"

text \<open>\<^verbatim>\<open>chartData\<close> of ReviewSection, over \<^verbatim>\<open>filteredData.logs\<close>, with the category filter.\<close>

definition addLogSel :: "CategoryId option \<Rightarrow> int \<times> int \<Rightarrow> DailyLog \<Rightarrow> int \<times> int" where
  "addLogSel selectedCategory acc lg =
     (case selectedCategory of
        None \<Rightarrow> foldl addRecord acc (map (categories lg) catOrder)
      | Some k \<Rightarrow> addRecord acc (categories lg k))"


definition dayAccuracyRS :: "CategoryId option \<Rightarrow> DailyLog list \<Rightarrow> int" where
  "dayAccuracyRS selectedCategory dayLogs =
     (if length dayLogs > 0
      then (let tc = foldl (addLogSel selectedCategory) (0, 0) dayLogs in accuracy (fst tc) (snd tc))
      else 0)"




section \<open>Range deletion (App.tsx)\<close>

text \<open>
  \<^verbatim>\<open>handleDeleteRange\<close>. \<^verbatim>\<open>!state.selectedTargetId\<close> holds for \<^verbatim>\<open>null\<close> and for the empty
  string. \<^verbatim>\<open>prev.logs[targetId] || []\<close> is the stored list or the empty one. The bounds
  come from \<^verbatim>\<open>new Date(startDate).setHours(0,0,0,0)\<close> and
  \<^verbatim>\<open>new Date(endDate).setHours(23,59,59,999)\<close>, NaN for an empty string. The filters keep
  what lies outside the bounds.
\<close>

definition rangeStart :: "int \<Rightarrow> datestr \<Rightarrow> int option" where
  "rangeStart tz startDate = map_option (setHours0 tz) (newDate startDate)"

definition rangeEnd :: "int \<Rightarrow> datestr \<Rightarrow> int option" where
  "rangeEnd tz endDate = map_option (setHoursEnd tz) (newDate endDate)"

text \<open>\<^verbatim>\<open>l.timestamp || new Date(l.date).getTime()\<close>, the date read as UTC midnight.\<close>

definition logTime :: "DailyLog \<Rightarrow> int" where
  "logTime l = (if log_timestamp l \<noteq> 0 then log_timestamp l else log_date l * msPerDay)"

definition handleDeleteRange :: "int \<Rightarrow> datestr \<Rightarrow> datestr \<Rightarrow> AppState \<Rightarrow> AppState" where
  "handleDeleteRange tz startDate endDate prev =
     (case selectedTargetId prev of
        None \<Rightarrow> prev
      | Some tid \<Rightarrow>
          if tid = [] then prev
          else
            let startTs = rangeStart tz startDate;
                endTs = rangeEnd tz endDate;
                targetLogs = (case logs prev tid of None \<Rightarrow> [] | Some xs \<Rightarrow> xs);
                targetReviews = (case reviews prev tid of None \<Rightarrow> [] | Some xs \<Rightarrow> xs);
                newLogs = filter (\<lambda>log. let t = logTime log in js_lt t startTs \<or> js_gt t endTs) targetLogs;
                newReviews = filter (\<lambda>rev. let t = rev_timestamp rev in js_lt t startTs \<or> js_gt t endTs)
                               targetReviews
            in prev\<lparr> logs := (logs prev)(tid \<mapsto> newLogs),
                     reviews := (reviews prev)(tid \<mapsto> newReviews) \<rparr>)"

text \<open>\<^verbatim>\<open>currentLogs\<close> and \<^verbatim>\<open>currentReviews\<close>, the lists App.tsx hands to its components.\<close>

definition currentLogs :: "AppState \<Rightarrow> DailyLog list" where
  "currentLogs st =
     (case selectedTargetId st of
        None \<Rightarrow> []
      | Some tid \<Rightarrow> if tid = [] then [] else (case logs st tid of None \<Rightarrow> [] | Some xs \<Rightarrow> xs))"

definition currentReviews :: "AppState \<Rightarrow> ReviewNote list" where
  "currentReviews st =
     (case selectedTargetId st of
        None \<Rightarrow> []
      | Some tid \<Rightarrow> if tid = [] then [] else (case reviews st tid of None \<Rightarrow> [] | Some xs \<Rightarrow> xs))"

section \<open>Staged deletion (HistoryDrawer)\<close>

text \<open>
  \<^verbatim>\<open>calculateDataSize\<close>. The two filters are modelled as written. What follows them,
  \<^verbatim>\<open>formatBytes(new Blob([JSON.stringify({ logs, reviews })]).size)\<close>, is the parameter
  \<open>sizeText\<close>: it serialises with the runtime and formats with floating-point logarithms.
\<close>

definition logsInRange :: "int \<Rightarrow> DailyLog list \<Rightarrow> datestr \<Rightarrow> datestr \<Rightarrow> DailyLog list" where
  "logsInRange tz ls startStr endStr =
     (let start = rangeStart tz startStr;
          end = rangeEnd tz endStr
      in filter (\<lambda>l. let t = logTime l in js_ge t start \<and> js_le t end) ls)"

definition reviewsInRange :: "int \<Rightarrow> ReviewNote list \<Rightarrow> datestr \<Rightarrow> datestr \<Rightarrow> ReviewNote list" where
  "reviewsInRange tz rs startStr endStr =
     (let start = rangeStart tz startStr;
          end = rangeEnd tz endStr
      in filter (\<lambda>r. let t = rev_timestamp r in js_ge t start \<and> js_le t end) rs)"

definition calculateDataSize ::
  "(DailyLog list \<Rightarrow> ReviewNote list \<Rightarrow> string) \<Rightarrow> int \<Rightarrow> DailyLog list \<Rightarrow> ReviewNote list
     \<Rightarrow> datestr \<Rightarrow> datestr \<Rightarrow> string" where
  "calculateDataSize sizeText tz ls rs startStr endStr =
     (if startStr = Blank \<or> endStr = Blank then ''0 Bytes''
      else sizeText (logsInRange tz ls startStr endStr) (reviewsInRange tz rs startStr endStr))"

text \<open>The component state of the bulk deletion, as the \<^verbatim>\<open>useState\<close> hooks declare it.\<close>

record DrawerState =
  isDeleteMode :: bool
  deleteStart :: datestr
  deleteEnd :: datestr
  deleteConfirmStep :: nat
  estimatedSize :: string

definition initialDrawer :: DrawerState where
  "initialDrawer =
     \<lparr> isDeleteMode = False, deleteStart = Blank, deleteEnd = Blank,
       deleteConfirmStep = 0, estimatedSize = [] \<rparr>"

text \<open>
  \<^verbatim>\<open>handleDeleteFlow\<close>. The result is the new component state and the call of the
  property \<^verbatim>\<open>onDeleteRange\<close>, if the handler makes one, with its two arguments.
\<close>

definition handleDeleteFlow ::
  "(DailyLog list \<Rightarrow> ReviewNote list \<Rightarrow> string) \<Rightarrow> int \<Rightarrow> DailyLog list \<Rightarrow> ReviewNote list
     \<Rightarrow> DrawerState \<Rightarrow> DrawerState \<times> (datestr \<times> datestr) option" where
  "handleDeleteFlow sizeText tz ls rs d =
     (if deleteConfirmStep d = 0 then (d\<lparr> deleteConfirmStep := 1 \<rparr>, None)
      else if deleteConfirmStep d = 1 then
        (if deleteStart d = Blank \<or> deleteEnd d = Blank then (d, None)
         else (d\<lparr> deleteConfirmStep := 2 \<rparr>, None))
      else if deleteConfirmStep d = 2 then
        (let size = calculateDataSize sizeText tz ls rs (deleteStart d) (deleteEnd d)
         in (d\<lparr> estimatedSize := size, deleteConfirmStep := 3 \<rparr>, None))
      else if deleteConfirmStep d = 3 then
        (d\<lparr> deleteConfirmStep := 0, isDeleteMode := False, deleteStart := Blank,
            deleteEnd := Blank, estimatedSize := [] \<rparr>,
         Some (deleteStart d, deleteEnd d))
      else (d, None))"

text \<open>
  The controls of the footer. \<open>OpenBulk\<close> is the button shown outside delete mode,
  \<open>Abort\<close> the closing button of delete mode, \<open>PickStart\<close> and \<open>PickEnd\<close> the two date
  inputs shown at step 1, \<open>Advance\<close> the main button, which is disabled at step 1 while a
  date is missing. A control that is not shown changes nothing. The drawer receives
  \<^verbatim>\<open>currentLogs\<close> and \<^verbatim>\<open>currentReviews\<close>, and \<^verbatim>\<open>onDeleteRange\<close> is \<^verbatim>\<open>handleDeleteRange\<close>.
\<close>

datatype DrawerEvent = OpenBulk | Abort | PickStart datestr | PickEnd datestr | Advance

fun drawerStep ::
  "(DailyLog list \<Rightarrow> ReviewNote list \<Rightarrow> string) \<Rightarrow> int \<Rightarrow> AppState \<times> DrawerState \<Rightarrow> DrawerEvent
     \<Rightarrow> AppState \<times> DrawerState" where
  "drawerStep sizeText tz (app, d) OpenBulk =
     (if \<not> isDeleteMode d then (app, d\<lparr> isDeleteMode := True, deleteConfirmStep := 1 \<rparr>)
      else (app, d))"
| "drawerStep sizeText tz (app, d) Abort =
     (if isDeleteMode d then (app, d\<lparr> isDeleteMode := False, deleteConfirmStep := 0 \<rparr>)
      else (app, d))"
| "drawerStep sizeText tz (app, d) (PickStart v) =
     (if isDeleteMode d \<and> deleteConfirmStep d = 1 then (app, d\<lparr> deleteStart := v \<rparr>)
      else (app, d))"
| "drawerStep sizeText tz (app, d) (PickEnd v) =
     (if isDeleteMode d \<and> deleteConfirmStep d = 1 then (app, d\<lparr> deleteEnd := v \<rparr>)
      else (app, d))"
| "drawerStep sizeText tz (app, d) Advance =
     (if isDeleteMode d
         \<and> \<not> (deleteConfirmStep d = 1 \<and> (deleteStart d = Blank \<or> deleteEnd d = Blank))
      then (case handleDeleteFlow sizeText tz (currentLogs app) (currentReviews app) d of
              (d', None) \<Rightarrow> (app, d')
            | (d', Some (s, e)) \<Rightarrow> (handleDeleteRange tz s e app, d'))
      else (app, d))"

section \<open>Persistent store (services/storage.ts)\<close>

text \<open>
  A value of the runtime, as \<^verbatim>\<open>JSON.parse\<close> returns it. An array is an object too and can
  carry named properties, empty after parsing. \<^verbatim>\<open>loadState\<close> is typed \<^verbatim>\<open>AppState\<close> but
  returns whatever was parsed.
\<close>

datatype jsval =
    JNull
  | JBool bool
  | JNum real
  | JStr string
  | JArr "jsval list" "(string \<times> jsval) list"
  | JObj "(string \<times> jsval) list"

definition DEFAULT_STATE :: jsval where
  "DEFAULT_STATE =
     JObj [(''targets'', JArr [] []), (''selectedTargetId'', JNull),
           (''logs'', JObj []), (''reviews'', JObj [])]"

text \<open>Truthiness of a property value; \<open>None\<close> is \<^verbatim>\<open>undefined\<close>.\<close>

fun truthy :: "jsval option \<Rightarrow> bool" where
  "truthy None = False"
| "truthy (Some JNull) = False"
| "truthy (Some (JBool b)) = b"
| "truthy (Some (JNum x)) = (x \<noteq> 0)"
| "truthy (Some (JStr s)) = (s \<noteq> [])"
| "truthy (Some (JArr xs ps)) = True"
| "truthy (Some (JObj ps)) = True"

text \<open>Assignment to a property: an existing key keeps its place, a new key goes last.\<close>

fun setProp :: "string \<Rightarrow> jsval \<Rightarrow> (string \<times> jsval) list \<Rightarrow> (string \<times> jsval) list" where
  "setProp k v [] = [(k, v)]"
| "setProp k v (p # ps) = (if fst p = k then (k, v) # ps else p # setProp k v ps)"

text \<open>
  \<^verbatim>\<open>if (!state.reviews) state.reviews = {}; return state;\<close> The result is \<open>None\<close> where
  the statement throws a \<^verbatim>\<open>TypeError\<close>: reading a property of \<^verbatim>\<open>null\<close>, and, the module
  being strict code, assigning a property of a boolean, a number or a string.
\<close>

fun migrate :: "jsval \<Rightarrow> jsval option" where
  "migrate JNull = None"
| "migrate (JBool b) = None"
| "migrate (JNum x) = None"
| "migrate (JStr s) = None"
| "migrate (JArr xs ps) =
     (if \<not> truthy (map_of ps ''reviews'') then Some (JArr xs (setProp ''reviews'' (JObj []) ps))
      else Some (JArr xs ps))"
| "migrate (JObj ps) =
     (if \<not> truthy (map_of ps ''reviews'') then Some (JObj (setProp ''reviews'' (JObj []) ps))
      else Some (JObj ps))"

text \<open>
  What \<^verbatim>\<open>localStorage.getItem(STORAGE_KEY)\<close> does: it throws, or returns \<^verbatim>\<open>null\<close> or a
  string. \<^verbatim>\<open>JSON.parse\<close> is the parameter \<open>parse\<close>, \<open>None\<close> where it throws a
  \<^verbatim>\<open>SyntaxError\<close>.
\<close>

datatype getItemResult = GetItemThrows | Item "string option"

definition loadState :: "(string \<Rightarrow> jsval option) \<Rightarrow> getItemResult \<Rightarrow> jsval" where
  "loadState parse stored =
     (case stored of
        GetItemThrows \<Rightarrow> DEFAULT_STATE
      | Item None \<Rightarrow> DEFAULT_STATE
      | Item (Some serialized) \<Rightarrow>
          if serialized = [] then DEFAULT_STATE
          else (case parse serialized of
                  None \<Rightarrow> DEFAULT_STATE
                | Some state \<Rightarrow>
                    (case migrate state of
                       None \<Rightarrow> DEFAULT_STATE
                     | Some state' \<Rightarrow> state')))"

section \<open>Notions used to state the properties\<close>

text \<open>
  The position of a category in the enumeration, and the total, the number of correct
  answers and the exact accuracy in percent that a list of logs accumulates for a category.
\<close>

fun catIndex :: "CategoryId \<Rightarrow> nat" where
  "catIndex Speech = 0"
| "catIndex Politics = 1"
| "catIndex Common = 2"
| "catIndex Logic = 3"
| "catIndex Data = 4"

definition catTotal :: "DailyLog list \<Rightarrow> CategoryId \<Rightarrow> int" where
  "catTotal ls k = sum_list (map (\<lambda>l. total (categories l k)) ls)"

definition catCorrect :: "DailyLog list \<Rightarrow> CategoryId \<Rightarrow> int" where
  "catCorrect ls k = sum_list (map (\<lambda>l. correct (categories l k)) ls)"

definition catPercent :: "DailyLog list \<Rightarrow> CategoryId \<Rightarrow> real" where
  "catPercent ls k = (real_of_int (catCorrect ls k) / real_of_int (catTotal ls k)) * 100"

text \<open>
  The total, the correct answers and the duration of one log under a category filter:
  over all five categories for \<open>None\<close> (\<^verbatim>\<open>'ALL'\<close>), of the one category otherwise.
\<close>

fun selTotal :: "CategoryId option \<Rightarrow> DailyLog \<Rightarrow> int" where
  "selTotal None l = sum_list (map (\<lambda>k. total (categories l k)) catOrder)"
| "selTotal (Some k) l = total (categories l k)"

fun selCorrect :: "CategoryId option \<Rightarrow> DailyLog \<Rightarrow> int" where
  "selCorrect None l = sum_list (map (\<lambda>k. correct (categories l k)) catOrder)"
| "selCorrect (Some k) l = correct (categories l k)"

fun selDuration :: "CategoryId option \<Rightarrow> DailyLog \<Rightarrow> int" where
  "selDuration None l = sum_list (map (\<lambda>k. duration (categories l k)) catOrder)"
| "selDuration (Some k) l = duration (categories l k)"



text \<open>
  The real number that a double stands for; the double that \<^verbatim>\<open>Math.round\<close> receives in the
  accuracy expression, as a real number; and the condition that the exact percentage
  \<open>100 * cor / tot\<close> lies halfway between two integers. \<open>p2 s\<close> is the power \<open>2^s\<close> for an
  exponent of either sign.
\<close>

definition valof :: "double \<Rightarrow> real" where
  "valof x = real_of_int (fst x) / real_of_int (snd x)"

definition percent :: "int \<Rightarrow> int \<Rightarrow> real" where
  "percent tot cor = valof (fmul (fdiv (ofInt cor) (ofInt tot)) (ofInt 100))"

definition halfway :: "int \<Rightarrow> int \<Rightarrow> bool" where
  "halfway tot cor = ((200 * cor + tot) mod (2 * tot) = 0)"

definition p2 :: "int \<Rightarrow> real" where
  "p2 s = (if 0 \<le> s then 2 ^ nat s else 1 / 2 ^ nat (- s))"

section \<open>Example inputs\<close>

text \<open>
  A session built from the triples \<open>(total, correct, duration)\<close> of its five categories.
\<close>

definition rec3 :: "int \<times> int \<times> int \<Rightarrow> QuestionRecord" where
  "rec3 x = \<lparr> total = fst x, correct = fst (snd x), duration = snd (snd x) \<rparr>"

fun cats5 ::
  "int \<times> int \<times> int \<Rightarrow> int \<times> int \<times> int \<Rightarrow> int \<times> int \<times> int \<Rightarrow> int \<times> int \<times> int \<Rightarrow> int \<times> int \<times> int
     \<Rightarrow> CategoryId \<Rightarrow> QuestionRecord" where
  "cats5 a b c d e Speech = rec3 a"
| "cats5 a b c d e Politics = rec3 b"
| "cats5 a b c d e Common = rec3 c"
| "cats5 a b c d e Logic = rec3 d"
| "cats5 a b c d e Data = rec3 e"

definition mkLog :: "string \<Rightarrow> int \<Rightarrow> int \<Rightarrow> (CategoryId \<Rightarrow> QuestionRecord) \<Rightarrow> DailyLog" where
  "mkLog i d t cs = \<lparr> log_id = i, log_date = d, categories = cs, log_timestamp = t \<rparr>"



text \<open>A session with an all-zero record in every category.\<close>

definition zeroLog :: DailyLog where
  "zeroLog = mkLog ''z'' 19724 1704196800000
     (cats5 (0, 0, 0) (0, 0, 0) (0, 0, 0) (0, 0, 0) (0, 0, 0))"

text \<open>
  A parser that knows one blob, an object with a \<^verbatim>\<open>logs\<close> field and nothing else, and
  rejects every other string.
\<close>

definition logsOnlyBlob :: string where
  \<open>logsOnlyBlob = ''{"logs":{}}''\<close>

definition parseLogsOnly :: "string \<Rightarrow> jsval option" where
  "parseLogsOnly s = (if s = logsOnlyBlob then Some (JObj [(''logs'', JObj [])]) else None)"

text \<open>A parser that knows one blob, an object whose \<^verbatim>\<open>reviews\<close> field holds \<^verbatim>\<open>null\<close>.\<close>

definition nullReviewsBlob :: string where
  \<open>nullReviewsBlob = ''{"logs":{},"reviews":null}''\<close>

definition parseNullReviews :: "string \<Rightarrow> jsval option" where
  "parseNullReviews s =
     (if s = nullReviewsBlob then Some (JObj [(''logs'', JObj []), (''reviews'', JNull)]) else None)"

text \<open>
  Two time zones, UTC+8 and UTC-5, in milliseconds. \<open>logAt\<close> is the log that
  \<^verbatim>\<open>handleSubmit\<close> of DailyCheckIn writes at \<open>ms\<close> milliseconds after local midnight of
  day \<open>d\<close>: its date is \<^verbatim>\<open>format(new Date(), 'yyyy-MM-dd')\<close> and its timestamp
  \<^verbatim>\<open>Date.now()\<close>. \<open>noteAt\<close> is a review note written at such a moment. Day 19724 is
  2024-01-02.
\<close>

definition tzEast :: int where
  "tzEast = 28800000"

definition tzWest :: int where
  "tzWest = - 18000000"

definition plainCats :: "CategoryId \<Rightarrow> QuestionRecord" where
  "plainCats = cats5 (10, 8, 5) (0, 0, 0) (0, 0, 0) (0, 0, 0) (0, 0, 0)"

definition logAt :: "int \<Rightarrow> string \<Rightarrow> int \<Rightarrow> int \<Rightarrow> DailyLog" where
  "logAt tz i d ms = mkLog i d (localMidnight tz d + ms) plainCats"

definition noteAt :: "int \<Rightarrow> string \<Rightarrow> string \<Rightarrow> int \<Rightarrow> int \<Rightarrow> ReviewNote" where
  "noteAt tz i tid d ms =
     \<lparr> rev_id = i, rev_date = [], content = ''note'', targetId = tid,
       rev_timestamp = localMidnight tz d + ms \<rparr>"

definition mkTarget :: "string \<Rightarrow> ExamTarget" where
  "mkTarget i = \<lparr> tgt_id = i, tgt_name = i, examDate = ''2024-06-01'', color = ''#57534e'',
                  createdAt = 0 \<rparr>"

text \<open>
  A state in UTC+8 with two targets, the first selected. Target \<open>a\<close> has a log and a note
  on 2024-01-02 and a log on 2024-01-08; target \<open>b\<close> has a log and a note on 2024-01-02.
\<close>

definition sampleState :: AppState where
  "sampleState =
     \<lparr> targets = [mkTarget ''a'', mkTarget ''b''],
       selectedTargetId = Some ''a'',
       logs = [''a'' \<mapsto> [logAt tzEast ''l1'' 19724 43200000, logAt tzEast ''l2'' 19730 32400000],
               ''b'' \<mapsto> [logAt tzEast ''l3'' 19724 43200000]],
       reviews = [''a'' \<mapsto> [noteAt tzEast ''r1'' ''a'' 19724 50000000],
                  ''b'' \<mapsto> [noteAt tzEast ''r2'' ''b'' 19724 50000000]] \<rparr>"

text \<open>
  A size renderer for the examples, and the drawer in delete mode at a given step with the
  given dates chosen.
\<close>

definition sizeStub :: "DailyLog list \<Rightarrow> ReviewNote list \<Rightarrow> string" where
  "sizeStub ls rs = (if length ls + length rs = 0 then ''0 Bytes'' else ''some Bytes'')"

definition drawerAt :: "nat \<Rightarrow> datestr \<Rightarrow> datestr \<Rightarrow> string \<Rightarrow> DrawerState" where
  "drawerAt n s e sz =
     \<lparr> isDeleteMode = True, deleteStart = s, deleteEnd = e, deleteConfirmStep = n,
       estimatedSize = sz \<rparr>"

text \<open>
  A note that carries a date on 2024-01-02 and no timestamp, and a one-target state in UTC-5
  whose target has a log written at noon on 2024-01-01 and one written at noon on 2024-01-02.
\<close>

definition undatedNote :: ReviewNote where
  "undatedNote =
     \<lparr> rev_id = ''r0'', rev_date = ''2024-01-02 10:00:00'', content = ''note'', targetId = ''a'',
       rev_timestamp = 0 \<rparr>"

definition westState :: AppState where
  "westState =
     \<lparr> targets = [mkTarget ''a''],
       selectedTargetId = Some ''a'',
       logs = [''a'' \<mapsto> [logAt tzWest ''w1'' 19723 43200000, logAt tzWest ''w2'' 19724 43200000]],
       reviews = [''a'' \<mapsto> []] \<rparr>"

text \<open>
  A state in UTC-5 with two targets, the first selected. Target \<open>a\<close> has a log written at
  noon and a note written at 15:00 on each of 2024-01-01 and 2024-01-02; target \<open>b\<close> has a
  log written at noon of 2024-01-02.
\<close>

definition westNotesState :: AppState where
  "westNotesState =
     \<lparr> targets = [mkTarget ''a'', mkTarget ''b''],
       selectedTargetId = Some ''a'',
       logs = [''a'' \<mapsto> [logAt tzWest ''w1'' 19723 43200000, logAt tzWest ''w2'' 19724 43200000],
               ''b'' \<mapsto> [logAt tzWest ''w3'' 19724 43200000]],
       reviews = [''a'' \<mapsto> [noteAt tzWest ''n1'' ''a'' 19723 54000000,
                              noteAt tzWest ''n2'' ''a'' 19724 54000000],
                  ''b'' \<mapsto> []] \<rparr>"

text \<open>A log of 2024-01-02 that carries no timestamp.\<close>

definition undatedLog :: DailyLog where
  "undatedLog = mkLog ''g'' 19724 0 plainCats"






text \<open>
  In New York, 2024-11-03 (day 20030) is the day the clocks are set back; \<open>fallBackLog\<close> is
  written at noon of that day and \<open>nyNoon\<close> is noon of the next day, 2024-11-04.
  \<open>juneLogs\<close> are written at noon of 2024-06-14 and 2024-06-15 and \<open>juneNoon\<close> is
  13:00 of 2024-06-15 there.
\<close>

definition fallBackLog :: DailyLog where
  "fallBackLog = mkLog ''f'' 20030 1730653200000 plainCats"

definition nyNoon :: int where
  "nyNoon = 1730739600000"



section \<open>Accuracy\<close>

text \<open>Rounding to 53 bits is off by at most \<open>2^-53\<close> of the exact value.\<close>
lemma bits_bounds: "0 < n \<Longrightarrow> 2 ^ bits n \<le> 2 * n \<and> n < 2 ^ bits n"
proof (induction n rule: bits.induct)
  case (1 n)
  show ?case
  proof (cases "n = 1")
    case True
    then show ?thesis by (simp add: bits.simps)
  next
    case False
    with 1(2) have p: "0 < n div 2" by simp
    have n: "\<not> n \<le> 0" using 1(2) by simp
    from 1(1)[OF n p] have ih: "2 ^ bits (n div 2) \<le> 2 * (n div 2)" "n div 2 < 2 ^ bits (n div 2)"
      by simp_all
    have b: "bits n = Suc (bits (n div 2))" using n by (subst bits.simps) simp
    show ?thesis unfolding b using ih by (simp) arith
  qed
qed

lemma roundEven_int: "0 < d \<Longrightarrow> \<bar>2 * (roundEven n d * d - n)\<bar> \<le> d"
proof -
  assume d: "0 < d"
  have e: "n = (n div d) * d + n mod d" by simp
  have r: "0 \<le> n mod d" "n mod d < d" using d by simp_all
  define q where "q = n div d"
  define r where "r = n mod d"
  have e': "n = q * d + r" and r': "0 \<le> r" "r < d" using e r by (simp_all add: q_def r_def)
  have "roundEven n d = q \<and> 2 * r \<le> d \<or> roundEven n d = q + 1 \<and> d \<le> 2 * r"
    by (auto simp add: roundEven_def Let_def q_def r_def)
  then show ?thesis
  proof
    assume "roundEven n d = q \<and> 2 * r \<le> d"
    then show ?thesis using e' r' by (simp add: algebra_simps)
  next
    assume "roundEven n d = q + 1 \<and> d \<le> 2 * r"
    then show ?thesis using e' r' by (simp add: algebra_simps)
  qed
qed

lemma roundEven_real:
  assumes "0 < d"
  shows "\<bar>real_of_int (roundEven n d) - real_of_int n / real_of_int d\<bar> \<le> 1 / 2"
proof -
  define A where "A = real_of_int (roundEven n d) * real_of_int d - real_of_int n"
  have "real_of_int \<bar>2 * (roundEven n d * d - n)\<bar> \<le> real_of_int d"
    using roundEven_int[OF assms, of n] by (simp only: of_int_le_iff)
  then have "\<bar>2 * A\<bar> \<le> real_of_int d" by (simp add: A_def)
  then have "\<bar>A\<bar> \<le> real_of_int d / 2" by (simp add: abs_mult)
  then have h1: "\<bar>A\<bar> / real_of_int d \<le> 1 / 2" using assms by (simp add: field_simps)
  have h2: "real_of_int (roundEven n d) - real_of_int n / real_of_int d = A / real_of_int d"
    using assms by (simp add: A_def field_simps)
  have h3: "\<bar>A / real_of_int d\<bar> = \<bar>A\<bar> / real_of_int d" using assms by simp
  show ?thesis unfolding h2 h3 by (rule h1)
qed

lemma p2_pos: "0 < p2 s" by (simp add: p2_def)

lemma p2_powr: "p2 s = 2 powr real_of_int s"
  by (simp add: p2_def powr_int)

lemma p2_add: "p2 (a + b) = p2 a * p2 b"
  by (simp add: p2_powr powr_add)

lemma p2_numeral: "p2 52 = 2 ^ 52" "p2 53 = 2 ^ 53" "p2 (- 1) = 1 / 2" "p2 0 = 1"
  by (simp_all add: p2_def)

lemma p2_nat: "p2 (int k) = 2 ^ k" by (simp add: p2_def)

lemma p2_minus: "p2 (- s) = 1 / p2 s"
  by (simp add: p2_powr powr_minus_divide)

lemma scale_val:
  assumes "0 < d"
  shows "0 < snd (scale s n d)"
    and "valof (scale s n d) = real_of_int n / real_of_int d * p2 s"
  using assms by (simp_all add: scale_def valof_def p2_def)

lemma rndPos_val:
  assumes n: "0 < n" and d: "0 < d"
  shows "0 < snd (rndPos n d)"
    and "\<bar>valof (rndPos n d) - real_of_int n / real_of_int d\<bar>
           \<le> real_of_int n / real_of_int d / 2 ^ 53"
proof -
  define bn where "bn = int (bits n)"
  define bd where "bd = int (bits d)"
  define s0 where "s0 = 53 - (bn - bd)"
  define s where "s = (if 2 ^ 53 * snd (scale s0 n d) \<le> fst (scale s0 n d) then s0 - 1 else s0)"
  define m where "m = roundEven (fst (scale s n d)) (snd (scale s n d))"
  define x where "x = real_of_int n / real_of_int d"
  have r: "rndPos n d = (if 0 \<le> s then (m, 2 ^ nat s) else (m * 2 ^ nat (- s), 1))"
    by (simp add: rndPos_def Let_def m_def s_def s0_def bn_def bd_def)
  show "0 < snd (rndPos n d)" by (simp add: r)
  have v: "valof (rndPos n d) = real_of_int m * p2 (- s)"
    by (simp add: r valof_def p2_def)
  have xpos: "0 < x" using n d by (simp add: x_def)
  have nb: "p2 bn \<le> 2 * real_of_int n"
  proof -
    have "(2::int) ^ bits n \<le> 2 * n" using bits_bounds[OF n] by simp
    then have "real_of_int (2 ^ bits n) \<le> real_of_int (2 * n)" by (simp only: of_int_le_iff)
    then show ?thesis by (simp add: bn_def p2_nat)
  qed
  have db: "real_of_int d < p2 bd"
  proof -
    have "d < 2 ^ bits d" using bits_bounds[OF d] by simp
    then have "real_of_int d < real_of_int (2 ^ bits d)" by (simp only: of_int_less_iff)
    then show ?thesis by (simp add: bd_def p2_nat)
  qed
  have "p2 bn * p2 (- 1) / p2 bd \<le> x"
  proof -
    have "p2 bn * p2 (- 1) \<le> real_of_int n" using nb by (simp add: p2_numeral)
    moreover have "0 < real_of_int d" using d by simp
    moreover have "0 < p2 bn * p2 (- 1)" by (simp add: p2_pos)
    ultimately have "p2 bn * p2 (- 1) / p2 bd \<le> real_of_int n / real_of_int d"
      using db by (intro frac_le) (simp_all add: less_imp_le)
    then show ?thesis by (simp add: x_def)
  qed
  moreover have "p2 bn * p2 (- 1) / p2 bd = p2 (bn - 1 - bd)"
  proof -
    have "p2 (bn - 1 - bd) = p2 (bn + (- 1) + (- bd))" by simp
    also have "\<dots> = p2 bn * p2 (- 1) * p2 (- bd)" by (simp only: p2_add)
    finally show ?thesis by (simp add: p2_minus)
  qed
  ultimately have "p2 (bn - 1 - bd) \<le> x" by simp
  then have "p2 (bn - 1 - bd) * p2 s0 \<le> x * p2 s0"
    using p2_pos[of s0] by simp
  moreover have "p2 (bn - 1 - bd) * p2 s0 = p2 52"
    unfolding p2_add[symmetric] s0_def by simp
  ultimately have x0: "2 ^ 52 \<le> x * p2 s0" by (simp add: p2_numeral)
  have xs: "2 ^ 52 \<le> x * p2 s"
  proof (cases "2 ^ 53 * snd (scale s0 n d) \<le> fst (scale s0 n d)")
    case True
    then have "real_of_int (2 ^ 53 * snd (scale s0 n d)) \<le> real_of_int (fst (scale s0 n d))"
      by (simp only: of_int_le_iff)
    then have "2 ^ 53 \<le> valof (scale s0 n d)"
      using scale_val(1)[OF d, of s0 n] by (simp add: valof_def field_simps)
    then have "2 ^ 53 \<le> x * p2 s0" by (simp add: scale_val(2)[OF d] x_def)
    then have h: "2 ^ 52 \<le> x * p2 s0 / 2" by simp
    have "p2 s = p2 s0 * p2 (- 1)" using True by (simp add: s_def p2_add[symmetric])
    then have e2: "x * p2 s = x * p2 s0 / 2" by (simp add: p2_numeral)
    show ?thesis unfolding e2 by (rule h)
  next
    case False
    then show ?thesis using x0 by (simp add: s_def)
  qed
  have "\<bar>real_of_int m - valof (scale s n d)\<bar> \<le> 1 / 2"
    unfolding m_def valof_def by (rule roundEven_real[OF scale_val(1)[OF d]])
  then have e: "\<bar>real_of_int m - x * p2 s\<bar> \<le> 1 / 2" by (simp add: scale_val(2)[OF d] x_def)
  have inv: "p2 s * p2 (- s) = 1" by (simp add: p2_add[symmetric] p2_numeral)
  have "\<bar>valof (rndPos n d) - x\<bar> = \<bar>(real_of_int m - x * p2 s) * p2 (- s)\<bar>"
  proof -
    have "(real_of_int m - x * p2 s) * p2 (- s) = real_of_int m * p2 (- s) - x * (p2 s * p2 (- s))"
      by (simp add: algebra_simps)
    then show ?thesis by (simp add: v inv)
  qed
  also have "\<dots> = \<bar>real_of_int m - x * p2 s\<bar> * p2 (- s)"
    using p2_pos[of "- s"] by (simp add: abs_mult)
  also have "\<dots> \<le> (1 / 2) * p2 (- s)"
    using e p2_pos[of "- s"] by (intro mult_right_mono) simp_all
  also have "\<dots> \<le> (x * p2 s / 2 ^ 53) * p2 (- s)"
  proof -
    have "(1::real) / 2 \<le> x * p2 s / 2 ^ 53" using xs by simp
    then show ?thesis using p2_pos[of "- s"] by (intro mult_right_mono) simp_all
  qed
  also have "\<dots> = x / 2 ^ 53"
  proof -
    have "(x * p2 s / 2 ^ 53) * p2 (- s) = x * (p2 s * p2 (- s)) / 2 ^ 53" by simp
    then show ?thesis by (simp only: inv mult_1_right)
  qed
  finally show "\<bar>valof (rndPos n d) - real_of_int n / real_of_int d\<bar>
           \<le> real_of_int n / real_of_int d / 2 ^ 53"
    by (simp add: x_def)
qed

lemma rnd_val:
  assumes d: "0 < d"
  shows "0 < snd (rnd n d)"
    and "\<bar>valof (rnd n d) - real_of_int n / real_of_int d\<bar>
           \<le> \<bar>real_of_int n / real_of_int d\<bar> / 2 ^ 53"
proof -
  show "0 < snd (rnd n d)"
    using rndPos_val(1)[OF _ d, of n] rndPos_val(1)[OF _ d, of "- n"] by (simp add: rnd_def)
  consider "n = 0" | "0 < n" | "n < 0" by arith
  then show "\<bar>valof (rnd n d) - real_of_int n / real_of_int d\<bar>
           \<le> \<bar>real_of_int n / real_of_int d\<bar> / 2 ^ 53"
  proof cases
    case 1
    then show ?thesis by (simp add: rnd_def valof_def)
  next
    case 2
    then have "\<bar>real_of_int n / real_of_int d\<bar> = real_of_int n / real_of_int d" using d by simp
    moreover have "rnd n d = rndPos n d" using 2 by (simp add: rnd_def)
    ultimately show ?thesis using rndPos_val(2)[OF 2 d] by (simp only:)
  next
    case 3
    then have p: "0 < - n" by simp
    have v: "valof (rnd n d) = - valof (rndPos (- n) d)" using 3 by (simp add: rnd_def valof_def)
    have "\<bar>valof (rnd n d) - real_of_int n / real_of_int d\<bar>
            = \<bar>valof (rndPos (- n) d) - real_of_int (- n) / real_of_int d\<bar>"
      unfolding v by (simp add: abs_minus_commute)
    also have "\<dots> \<le> real_of_int (- n) / real_of_int d / 2 ^ 53" by (rule rndPos_val(2)[OF p d])
    also have "\<dots> = \<bar>real_of_int n / real_of_int d\<bar> / 2 ^ 53"
      using 3 d by (simp add: abs_if field_simps)
    finally show ?thesis .
  qed
qed


text \<open>
  The accuracy is \<^verbatim>\<open>Math.round\<close> of a double that is off by at most \<open>3 * 2^-53\<close> of the exact
  percentage, which for a count of correct answers up to \<open>2^43\<close> is less than the distance
  \<open>1 / (2 * tot)\<close> between the exact percentage and the next halfway point.
\<close>
lemma Math_round_floor: "0 < snd x \<Longrightarrow> Math_round x = \<lfloor>valof x + 1 / 2\<rfloor>"
proof -
  assume b: "0 < snd x"
  have "valof x + 1 / 2 = real_of_int (2 * fst x + snd x) / real_of_int (2 * snd x)"
    using b by (simp add: valof_def field_simps)
  then have "\<lfloor>valof x + 1 / 2\<rfloor> = \<lfloor>real_of_int (2 * fst x + snd x) / real_of_int (2 * snd x)\<rfloor>"
    by (simp only:)
  also have "\<dots> = (2 * fst x + snd x) div (2 * snd x)" by (rule floor_divide_of_int_eq)
  finally show ?thesis by (simp add: Math_round_def)
qed

lemma accuracy_percent: "0 < t \<Longrightarrow> accuracy t c = \<lfloor>percent t c + 1 / 2\<rfloor>"
proof -
  assume t: "0 < t"
  have b: "0 < snd (rnd c t)" by (rule rnd_val(1)[OF t])
  have "0 < snd (fmul (fdiv (ofInt c) (ofInt t)) (ofInt 100))"
    using rnd_val(1)[OF b, of "fst (rnd c t) * 100"] by (simp add: fmul_def fdiv_def ofInt_def)
  then show ?thesis using t by (simp add: accuracy_def percent_def Math_round_floor)
qed

lemma percent_error:
  assumes t: "0 < t" and c: "0 \<le> c"
  shows "\<bar>percent t c - 100 * real_of_int c / real_of_int t\<bar>
           \<le> 100 * real_of_int c / real_of_int t * 3 / 2 ^ 53"
proof -
  define y where "y = real_of_int c / real_of_int t"
  define u :: real where "u = 1 / 2 ^ 53"
  define w where "w = y * u"
  define q where "q = valof (rnd c t)"
  define p where "p = percent t c"
  have y0: "0 \<le> y" using t c by (simp add: y_def)
  have u0: "0 \<le> u" "u \<le> 1" by (simp_all add: u_def)
  have w0: "0 \<le> w" using y0 u0 by (simp add: w_def)
  have b: "0 < snd (rnd c t)" by (rule rnd_val(1)[OF t])
  have "\<bar>q - y\<bar> \<le> \<bar>y\<bar> / 2 ^ 53" unfolding q_def y_def by (rule rnd_val(2)[OF t])
  then have A: "\<bar>q - y\<bar> \<le> w" using y0 by (simp add: w_def u_def)
  have pq: "p = valof (rnd (fst (rnd c t) * 100) (snd (rnd c t)))"
    by (simp add: p_def percent_def fmul_def fdiv_def ofInt_def)
  have hq: "real_of_int (fst (rnd c t) * 100) / real_of_int (snd (rnd c t)) = 100 * q"
    by (simp add: q_def valof_def)
  have "\<bar>p - 100 * q\<bar> \<le> \<bar>100 * q\<bar> / 2 ^ 53"
    unfolding pq hq[symmetric] by (rule rnd_val(2)[OF b])
  then have B: "\<bar>p - 100 * q\<bar> \<le> \<bar>100 * q\<bar> * u" by (simp add: u_def)
  have wu: "w * u \<le> w" using w0 u0 by (simp add: mult_left_le)
  have q0: "0 \<le> q"
  proof -
    have "w \<le> y" using y0 u0 unfolding w_def by (simp add: mult_left_le)
    then show ?thesis using A by linarith
  qed
  have "q * u \<le> (y + w) * u" using A u0 by (intro mult_right_mono) linarith+
  also have "\<dots> = w + w * u" by (simp add: w_def algebra_simps)
  also have "\<dots> \<le> 2 * w" using wu by simp
  finally have qu: "q * u \<le> 2 * w" .
  have "\<bar>100 * q\<bar> * u = 100 * (q * u)" using q0 by simp
  then have "\<bar>p - 100 * q\<bar> \<le> 200 * w" using B qu by linarith
  then have "\<bar>p - 100 * y\<bar> \<le> 300 * w" using A by linarith
  moreover have "300 * w = 100 * real_of_int c / real_of_int t * 3 / 2 ^ 53"
    by (simp add: w_def y_def u_def)
  moreover have "100 * y = 100 * real_of_int c / real_of_int t" by (simp add: y_def)
  ultimately show ?thesis unfolding p_def by (simp only:)
qed

lemma accuracy_nonneg: "0 \<le> c \<Longrightarrow> 0 \<le> accuracy t c"
proof (cases "0 < t")
  case True
  assume c: "0 \<le> c"
  define x where "x = 100 * real_of_int c / real_of_int t"
  have x0: "0 \<le> x" using True c by (simp add: x_def)
  have e: "\<bar>percent t c - x\<bar> \<le> x * 3 / 2 ^ 53" unfolding x_def by (rule percent_error[OF True c])
  have "x * 3 / 2 ^ 53 \<le> x" using x0 by (simp add: field_simps)
  then have "0 \<le> percent t c" using e by linarith
  then have "0 \<le> \<lfloor>percent t c + 1 / 2\<rfloor>" by simp
  then show ?thesis by (simp only: accuracy_percent[OF True])
next
  case False
  then show ?thesis by (simp add: accuracy_def)
qed

lemma accuracy_le_100: "0 \<le> c \<Longrightarrow> c \<le> t \<Longrightarrow> accuracy t c \<le> 100"
proof (cases "0 < t")
  case True
  assume c: "0 \<le> c" and le: "c \<le> t"
  define x where "x = 100 * real_of_int c / real_of_int t"
  have x0: "0 \<le> x" using True c by (simp add: x_def)
  have "real_of_int c \<le> real_of_int t" using le by (simp only: of_int_le_iff)
  then have "real_of_int c / real_of_int t \<le> 1" using True by simp
  then have x1: "x \<le> 100" by (simp add: x_def)
  have e: "\<bar>percent t c - x\<bar> \<le> x * 3 / 2 ^ 53" unfolding x_def by (rule percent_error[OF True c])
  have "x * 3 / 2 ^ 53 \<le> 100 * 3 / 2 ^ 53" using x1 by simp
  also have "\<dots> < (1::real) / 2" by simp
  finally have "percent t c + 1 / 2 < 101" using e x1 by linarith
  then have "\<lfloor>percent t c + 1 / 2\<rfloor> < 101" by (simp add: floor_less_iff)
  then show ?thesis by (simp add: accuracy_percent[OF True])
next
  case False
  then show ?thesis by (simp add: accuracy_def)
qed

lemma accuracy_near_round:
  assumes t: "0 < t" and c: "0 \<le> c" and cb: "c \<le> 2 ^ 43"
  shows "accuracy t c \<le> round (real_of_int c / real_of_int t * 100)"
    and "round (real_of_int c / real_of_int t * 100) - 1 \<le> accuracy t c"
    and "\<not> halfway t c \<Longrightarrow> accuracy t c = round (real_of_int c / real_of_int t * 100)"
proof -
  define x where "x = 100 * real_of_int c / real_of_int t"
  define K where "K = (200 * c + t) div (2 * t)"
  define r where "r = (200 * c + t) mod (2 * t)"
  define p where "p = percent t c"
  have rt: "real_of_int t > 0" using t by simp
  have x0: "0 \<le> x" using t c by (simp add: x_def)
  have KR: "round (real_of_int c / real_of_int t * 100) = K"
  proof -
    have "real_of_int c / real_of_int t * 100 + 1 / 2
            = real_of_int (200 * c + t) / real_of_int (2 * t)"
      using t by (simp add: field_simps)
    then have "round (real_of_int c / real_of_int t * 100)
            = \<lfloor>real_of_int (200 * c + t) / real_of_int (2 * t)\<rfloor>"
      by (simp only: round_def)
    also have "\<dots> = K" unfolding K_def by (rule floor_divide_of_int_eq)
    finally show ?thesis .
  qed
  have dm: "200 * c + t = K * (2 * t) + r" unfolding K_def r_def by (rule div_mult_mod_eq[symmetric])
  have rb: "0 \<le> r" "r < 2 * t" using t by (simp_all add: r_def)
  have "real_of_int (200 * c + t) = real_of_int (K * (2 * t) + r)" by (simp only: dm)
  then have xe: "x + 1 / 2 = real_of_int K + real_of_int r / (2 * real_of_int t)"
    using t by (simp add: x_def field_simps)
  have e: "\<bar>p - x\<bar> \<le> x * 3 / 2 ^ 53" unfolding x_def p_def by (rule percent_error[OF t c])
  have "real_of_int c \<le> 2 ^ 43" using cb by (metis of_int_le_iff of_int_numeral of_int_power)
  then have "real_of_int c * 600 < 2 ^ 53" by simp
  then have "100 * real_of_int c * 3 / 2 ^ 53 < 1 / 2" by simp
  then have "100 * real_of_int c * 3 / 2 ^ 53 / real_of_int t < 1 / 2 / real_of_int t"
    using rt by (simp only: divide_strict_right_mono)
  then have small: "x * 3 / 2 ^ 53 < 1 / (2 * real_of_int t)" by (simp add: x_def)
  have acc: "accuracy t c = \<lfloor>p + 1 / 2\<rfloor>" unfolding p_def by (rule accuracy_percent[OF t])
  have r1: "real_of_int r \<le> 2 * real_of_int t - 1"
  proof -
    have "r \<le> 2 * t - 1" using rb by simp
    then have "real_of_int r \<le> real_of_int (2 * t - 1)" by (simp only: of_int_le_iff)
    then show ?thesis by simp
  qed
  have "real_of_int r / (2 * real_of_int t) \<le> (2 * real_of_int t - 1) / (2 * real_of_int t)"
    using r1 rt by (simp add: divide_right_mono)
  also have "\<dots> = 1 - 1 / (2 * real_of_int t)" using rt by (simp add: field_simps)
  finally have up: "x + 1 / 2 \<le> real_of_int K + 1 - 1 / (2 * real_of_int t)" using xe by simp
  have "p + 1 / 2 < real_of_int K + 1" using e small up by linarith
  then have "p + 1 / 2 < real_of_int (K + 1)" by simp
  then have "\<lfloor>p + 1 / 2\<rfloor> < K + 1" by (simp only: floor_less_iff)
  then have le: "accuracy t c \<le> K" using acc by simp
  have r0: "0 \<le> real_of_int r / (2 * real_of_int t)" using rb rt by simp
  have "1 / (2 * real_of_int t) \<le> 1" using t by simp
  then have "real_of_int K - 1 \<le> p + 1 / 2" using e small xe r0 by linarith
  then have "real_of_int (K - 1) \<le> p + 1 / 2" by simp
  then have ge: "K - 1 \<le> accuracy t c" unfolding acc by (simp only: le_floor_iff)
  show "accuracy t c \<le> round (real_of_int c / real_of_int t * 100)" using le KR by simp
  show "round (real_of_int c / real_of_int t * 100) - 1 \<le> accuracy t c" using ge KR by simp
  show "accuracy t c = round (real_of_int c / real_of_int t * 100)" if nh: "\<not> halfway t c"
  proof -
    have "r \<noteq> 0" using nh by (simp add: halfway_def r_def)
    then have "1 \<le> r" using rb by simp
    then have "real_of_int 1 \<le> real_of_int r" by (simp only: of_int_le_iff)
    then have "1 / (2 * real_of_int t) \<le> real_of_int r / (2 * real_of_int t)"
      using rt by (simp add: divide_right_mono)
    then have "real_of_int K \<le> p + 1 / 2" using e small xe by linarith
    then have "K \<le> accuracy t c" unfolding acc by (simp only: le_floor_iff)
    then show ?thesis using le KR by simp
  qed
qed

lemma accuracy_zero: "accuracy 0 c = 0"
  by (simp add: accuracy_def)

lemma accuracy_evals:
  "accuracy 40 23 = 57" "accuracy 1 2 = 200" "accuracy 300 301 = 100" "accuracy 10 8 = 80"
  "accuracy 20 16 = 80" "accuracy 8 1 = 13" "accuracy 3 3 = 100" "accuracy 3 1 = 33"
  by (simp_all add: accuracy_def Math_round_def fmul_def fdiv_def ofInt_def rnd_def rndPos_def
        scale_def roundEven_def Let_def bits.simps)

text \<open>
  C7, as amended. For non-negative \<open>total\<close> and \<open>correct\<close> up to \<open>2^53\<close>, the integers
  that a JavaScript number holds exactly: the accuracy is 0 when \<open>total = 0\<close>; when
  \<open>total > 0\<close> it is \<^verbatim>\<open>Math.round\<close> of the double computed for \<open>correct / total * 100\<close>,
  which differs from the exact percentage by at most \<open>3 * 2^-53\<close> of it; for \<open>correct\<close> up
  to \<open>2^43\<close> it is the exact percentage rounded half up, unless the exact percentage lies
  halfway between two integers, where it is that rounding or 1 less. It is a non-negative
  integer, and it is at most 100 whenever \<open>correct\<close> does not exceed \<open>total\<close>.
\<close>

theorem accuracy_round_bounds:
  assumes "0 \<le> tot" and "0 \<le> cor" and "tot \<le> 2 ^ 53" and "cor \<le> 2 ^ 53"
  shows
  "(tot = 0 \<longrightarrow> accuracy tot cor = 0)
   \<and> (0 < tot \<longrightarrow>
        accuracy tot cor = \<lfloor>percent tot cor + 1 / 2\<rfloor>
        \<and> \<bar>percent tot cor - 100 * real_of_int cor / real_of_int tot\<bar>
             \<le> 100 * real_of_int cor / real_of_int tot * 3 / 2 ^ 53)
   \<and> (0 < tot \<and> cor \<le> 2 ^ 43 \<and> \<not> halfway tot cor \<longrightarrow>
        accuracy tot cor = round (real_of_int cor / real_of_int tot * 100))
   \<and> (0 < tot \<and> cor \<le> 2 ^ 43 \<and> halfway tot cor \<longrightarrow>
        accuracy tot cor = round (real_of_int cor / real_of_int tot * 100)
        \<or> accuracy tot cor = round (real_of_int cor / real_of_int tot * 100) - 1)
   \<and> 0 \<le> accuracy tot cor
   \<and> (cor \<le> tot \<longrightarrow> accuracy tot cor \<le> 100)"
proof -
  have a: "tot = 0 \<longrightarrow> accuracy tot cor = 0" by (simp add: accuracy_zero)
  have b: "0 < tot \<longrightarrow>
        accuracy tot cor = \<lfloor>percent tot cor + 1 / 2\<rfloor>
        \<and> \<bar>percent tot cor - 100 * real_of_int cor / real_of_int tot\<bar>
             \<le> 100 * real_of_int cor / real_of_int tot * 3 / 2 ^ 53"
    using accuracy_percent[of tot cor] percent_error[OF _ assms(2), of tot] by blast
  have c: "0 < tot \<and> cor \<le> 2 ^ 43 \<and> \<not> halfway tot cor \<longrightarrow>
        accuracy tot cor = round (real_of_int cor / real_of_int tot * 100)"
    using accuracy_near_round(3)[OF _ assms(2), of tot] by blast
  have d: "0 < tot \<and> cor \<le> 2 ^ 43 \<and> halfway tot cor \<longrightarrow>
        accuracy tot cor = round (real_of_int cor / real_of_int tot * 100)
        \<or> accuracy tot cor = round (real_of_int cor / real_of_int tot * 100) - 1"
  proof
    assume h: "0 < tot \<and> cor \<le> 2 ^ 43 \<and> halfway tot cor"
    then have t: "0 < tot" and cb: "cor \<le> 2 ^ 43" by simp_all
    from accuracy_near_round(1,2)[OF t assms(2) cb]
    show "accuracy tot cor = round (real_of_int cor / real_of_int tot * 100)
        \<or> accuracy tot cor = round (real_of_int cor / real_of_int tot * 100) - 1"
      by arith
  qed
  have e: "0 \<le> accuracy tot cor" by (rule accuracy_nonneg[OF assms(2)])
  have f: "cor \<le> tot \<longrightarrow> accuracy tot cor \<le> 100" using accuracy_le_100[OF assms(2)] by blast
  from a b c d e f show ?thesis by blast
qed

text \<open>
  The theorem at 1 of 8 (12.5, a halfway point, gives 13), 0 of 0, 3 of 3 and 1 of 3.
\<close>

theorem accuracy_round_bounds_witness:
  "accuracy 8 1 = 13 \<and> accuracy 0 0 = 0 \<and> accuracy 3 3 = 100 \<and> accuracy 3 1 = 33
   \<and> halfway 8 1 \<and> \<not> halfway 3 1"
  using accuracy_round_bounds[of 8 1] accuracy_round_bounds[of 0 0] accuracy_round_bounds[of 3 3]
    accuracy_round_bounds[of 3 1]
  by (simp add: accuracy_evals halfway_def)

text \<open>
  The claim as stated fails on a record with \<open>total = 1\<close> and \<open>correct = 2\<close>, both
  non-negative: the accuracy is 200, outside 0..100. It also fails at \<open>total = 40\<close> and
  \<open>correct = 23\<close>: the exact percentage is 57.5, which rounds to 58, and the accuracy
  computed in doubles is 57.
\<close>

theorem accuracy_range_counterexample:
  "0 \<le> (1::int) \<and> 0 \<le> (2::int) \<and> accuracy 1 2 = 200 \<and> \<not> (0 \<le> accuracy 1 2 \<and> accuracy 1 2 \<le> 100)
   \<and> accuracy 40 23 = 57 \<and> round (real_of_int 23 / real_of_int 40 * 100) = 58"
proof -
  have "round (real_of_int 23 / real_of_int 40 * 100) = round (115 / (2::real))" by simp
  also have "\<dots> = 58" unfolding round_def by simp
  finally show ?thesis by (simp add: accuracy_evals)
qed

section \<open>Weakest category\<close>

lemma bump_first:
  "foldl bumpTotals [] (map (\<lambda>k. (k, categories l k)) catOrder)
     = map (\<lambda>k. (k, (total (categories l k), correct (categories l k)))) catOrder"
  by (simp add: catOrder_def bumpTotals_def Let_def)

lemma bump_next:
  "foldl bumpTotals (map (\<lambda>k. (k, (a k, b k))) catOrder) (map (\<lambda>k. (k, categories l k)) catOrder)
     = map (\<lambda>k. (k, (a k + total (categories l k), b k + correct (categories l k)))) catOrder"
  by (simp add: catOrder_def bumpTotals_def Let_def)

lemma accumulate_from:
  "foldl (\<lambda>totals l. foldl bumpTotals totals (map (\<lambda>k. (k, categories l k)) catOrder))
         (map (\<lambda>k. (k, (a k, b k))) catOrder) ls
     = map (\<lambda>k. (k, (a k + catTotal ls k, b k + catCorrect ls k))) catOrder"
proof (induction ls arbitrary: a b)
  case Nil
  then show ?case by (simp add: catTotal_def catCorrect_def)
next
  case (Cons l ls)
  show ?case
    by (simp only: foldl_Cons bump_next Cons.IH)
       (simp add: catTotal_def catCorrect_def add.assoc)
qed

lemma accumulateTotals_eq:
  "ls \<noteq> [] \<Longrightarrow> accumulateTotals ls = map (\<lambda>k. (k, (catTotal ls k, catCorrect ls k))) catOrder"
proof (cases ls)
  case Nil
  assume "ls \<noteq> []"
  with Nil show ?thesis by simp
next
  case (Cons l rest)
  have "accumulateTotals (l # rest)
          = map (\<lambda>k. (k, (total (categories l k) + catTotal rest k,
                           correct (categories l k) + catCorrect rest k))) catOrder"
    unfolding accumulateTotals_def
    by (simp only: foldl_Cons bump_first accumulate_from)
  then show ?thesis using Cons by (simp add: catTotal_def catCorrect_def)
qed

lemma pickWeakest_shape:
  "foldl pickWeakest (m, r) xs = (m', r') \<Longrightarrow>
     m' \<le> m
   \<and> (\<forall>x\<in>set xs. fst (snd x) > 10 \<longrightarrow> m' \<le> (real_of_int (snd (snd x)) / real_of_int (fst (snd x))) * 100)
   \<and> ((r' = r \<and> m' = m)
       \<or> (\<exists>ys x zs. xs = ys @ x # zs \<and> fst (snd x) > 10
              \<and> (real_of_int (snd (snd x)) / real_of_int (fst (snd x))) * 100 = m'
              \<and> m' < m \<and> r' = Some (fst x)
              \<and> (\<forall>y\<in>set ys. fst (snd y) > 10 \<longrightarrow> m' < (real_of_int (snd (snd y)) / real_of_int (fst (snd y))) * 100)))"
proof (induction xs arbitrary: m r)
  case Nil
  then show ?case by simp
next
  case (Cons x xs)
  let ?acc = "\<lambda>x::CategoryId \<times> int \<times> int. (real_of_int (snd (snd x)) / real_of_int (fst (snd x))) * 100"
  show ?case
  proof (cases "fst (snd x) > 10 \<and> ?acc x < m")
    case True
    then have step: "pickWeakest (m, r) x = (?acc x, Some (fst x))"
      by (simp add: pickWeakest_def Let_def)
    from Cons.prems step have f: "foldl pickWeakest (?acc x, Some (fst x)) xs = (m', r')" by simp
    note ih = Cons.IH[OF f]
    from ih have le: "m' \<le> ?acc x" by blast
    from ih have all: "\<forall>y\<in>set xs. fst (snd y) > 10 \<longrightarrow> m' \<le> ?acc y" by blast
    from ih consider (same) "r' = Some (fst x)" "m' = ?acc x"
      | (later) ys x2 zs where "xs = ys @ x2 # zs" "fst (snd x2) > 10" "?acc x2 = m'" "m' < ?acc x"
          "r' = Some (fst x2)" "\<forall>y\<in>set ys. fst (snd y) > 10 \<longrightarrow> m' < ?acc y"
      by blast
    then have "\<exists>ys x2 zs. x # xs = ys @ x2 # zs \<and> fst (snd x2) > 10 \<and> ?acc x2 = m' \<and> m' < m
                 \<and> r' = Some (fst x2) \<and> (\<forall>y\<in>set ys. fst (snd y) > 10 \<longrightarrow> m' < ?acc y)"
    proof cases
      case same
      have "x # xs = [] @ x # xs" by simp
      with same True show ?thesis by fastforce
    next
      case later
      have "x # xs = (x # ys) @ x2 # zs" using later(1) by simp
      moreover have "\<forall>y\<in>set (x # ys). fst (snd y) > 10 \<longrightarrow> m' < ?acc y"
        using later(4,6) by simp
      moreover have "m' < m" using later(4) True by simp
      ultimately show ?thesis using later(2,3,5) by blast
    qed
    moreover have "m' \<le> m" using le True by simp
    moreover have "\<forall>y\<in>set (x # xs). fst (snd y) > 10 \<longrightarrow> m' \<le> ?acc y" using le all by simp
    ultimately show ?thesis by blast
  next
    case False
    then have step: "pickWeakest (m, r) x = (m, r)"
      by (auto simp add: pickWeakest_def Let_def)
    from Cons.prems step have f: "foldl pickWeakest (m, r) xs = (m', r')" by simp
    note ih = Cons.IH[OF f]
    from ih have le: "m' \<le> m" by blast
    from ih have all: "\<forall>y\<in>set xs. fst (snd y) > 10 \<longrightarrow> m' \<le> ?acc y" by blast
    from False have xok: "fst (snd x) > 10 \<longrightarrow> m \<le> ?acc x" by auto
    from ih consider (same) "r' = r" "m' = m"
      | (later) ys x2 zs where "xs = ys @ x2 # zs" "fst (snd x2) > 10" "?acc x2 = m'" "m' < m"
          "r' = Some (fst x2)" "\<forall>y\<in>set ys. fst (snd y) > 10 \<longrightarrow> m' < ?acc y"
      by blast
    then have "(r' = r \<and> m' = m) \<or> (\<exists>ys x2 zs. x # xs = ys @ x2 # zs \<and> fst (snd x2) > 10 \<and> ?acc x2 = m' \<and> m' < m
                 \<and> r' = Some (fst x2) \<and> (\<forall>y\<in>set ys. fst (snd y) > 10 \<longrightarrow> m' < ?acc y))"
    proof cases
      case same
      then show ?thesis by simp
    next
      case later
      have "x # xs = (x # ys) @ x2 # zs" using later(1) by simp
      moreover have "\<forall>y\<in>set (x # ys). fst (snd y) > 10 \<longrightarrow> m' < ?acc y"
        using later(4,6) xok by auto
      ultimately show ?thesis using later(2,3,4,5) by blast
    qed
    moreover have "\<forall>y\<in>set (x # xs). fst (snd y) > 10 \<longrightarrow> m' \<le> ?acc y" using le all xok by auto
    ultimately show ?thesis using le by blast
  qed
qed


lemma catOrder_nth: "catOrder ! catIndex j = j" "catIndex j < 5" "j \<in> set catOrder"
  by (cases j; simp add: catOrder_def)+

lemma catIndex_nth: "i < 5 \<Longrightarrow> catIndex (catOrder ! i) = i"
proof -
  assume "i < 5"
  then have "i = 0 \<or> i = 1 \<or> i = 2 \<or> i = 3 \<or> i = 4" by arith
  then show ?thesis by (auto simp: catOrder_def)
qed


lemma weakest_cases:
  assumes ne: "ls \<noteq> []"
  shows "(getWeakestCategory ls = None \<and> (\<forall>j. catTotal ls j > 10 \<longrightarrow> 101 \<le> catPercent ls j))
       \<or> (\<exists>k. getWeakestCategory ls = Some k \<and> catTotal ls k > 10 \<and> catPercent ls k < 101
             \<and> (\<forall>j. catTotal ls j > 10 \<longrightarrow> catPercent ls k \<le> catPercent ls j
                     \<and> (catIndex j < catIndex k \<longrightarrow> catPercent ls k < catPercent ls j)))"
proof -
  let ?f = "\<lambda>k. (k, (catTotal ls k, catCorrect ls k))"
  let ?xs = "map ?f catOrder"
  obtain m' r' where fr: "foldl pickWeakest (101, None) ?xs = (m', r')" by fastforce
  have res: "getWeakestCategory ls = r'"
    using ne fr by (simp add: getWeakestCategory_def accumulateTotals_eq)
  note sh = pickWeakest_shape[OF fr]
  have lower: "\<forall>j. catTotal ls j > 10 \<longrightarrow> m' \<le> catPercent ls j"
  proof (intro allI impI)
    fix j assume e: "catTotal ls j > 10"
    have "?f j \<in> set ?xs" using catOrder_nth(3)[of j] by simp
    with sh e show "m' \<le> catPercent ls j" unfolding catPercent_def by fastforce
  qed
  from sh consider (none) "r' = None" "m' = 101"
    | (some) ys x zs where "?xs = ys @ x # zs" "fst (snd x) > 10"
        "(real_of_int (snd (snd x)) / real_of_int (fst (snd x))) * 100 = m'" "m' < 101"
        "r' = Some (fst x)"
        "\<forall>y\<in>set ys. fst (snd y) > 10 \<longrightarrow> m' < (real_of_int (snd (snd y)) / real_of_int (fst (snd y))) * 100"
    by blast
  then show ?thesis
  proof cases
    case none
    with res lower show ?thesis by simp
  next
    case some
    let ?i = "length ys"
    have len: "?i < 5" 
    proof -
      have "length ?xs = length (ys @ x # zs)" using some(1) by simp
      then show ?thesis by (simp add: catOrder_def)
    qed
    have len5: "length catOrder = 5" by (simp add: catOrder_def)
    have x: "x = ?f (catOrder ! ?i)"
    proof -
      have "?xs ! ?i = x" using some(1) by simp
      then show ?thesis using len len5 by simp
    qed
    have ys: "ys = map ?f (take ?i catOrder)"
    proof -
      have "take ?i ?xs = ys" using some(1) by simp
      then show ?thesis by (simp add: take_map)
    qed
    let ?k = "catOrder ! ?i"
    have k1: "catTotal ls ?k > 10" using some(2) x by simp
    have k2: "catPercent ls ?k = m'" using some(3) x by (simp add: catPercent_def)
    have k3: "getWeakestCategory ls = Some ?k" using res some(5) x by simp
    have idx: "catIndex ?k = ?i" using len by (rule catIndex_nth)
    have before: "\<forall>j. catTotal ls j > 10 \<longrightarrow> catIndex j < catIndex ?k \<longrightarrow> m' < catPercent ls j"
    proof (intro allI impI)
      fix j assume e: "catTotal ls j > 10" and b: "catIndex j < catIndex ?k"
      have "catIndex j < ?i" using b idx by simp
      then have "take ?i catOrder ! catIndex j = j" using catOrder_nth(1)[of j] by simp
      moreover have "catIndex j < length (take ?i catOrder)" using \<open>catIndex j < ?i\<close> len len5 by simp
      ultimately have "j \<in> set (take ?i catOrder)" by (metis nth_mem)
      then have "?f j \<in> set (map ?f (take ?i catOrder))" by auto
      then have "?f j \<in> set ys" by (simp only: ys[symmetric])
      with some(6) e show "m' < catPercent ls j" unfolding catPercent_def by fastforce
    qed
    show ?thesis using k1 k2 k3 some(4) lower before by auto
  qed
qed







section \<open>Sums of the aggregates, empty and all-zero inputs\<close>

lemma addLogSel_eq:
  "addLogSel sel acc l = (fst acc + selTotal sel l, snd acc + selCorrect sel l)"
  by (cases sel) (simp_all add: addLogSel_def addRecord_def catOrder_def)

lemma addLogAll_eq:
  "addLogAll acc l = (fst acc + selTotal None l, snd acc + selCorrect None l)"
  by (simp add: addLogAll_def addRecord_def catOrder_def)

lemma foldl_addLogSel:
  "foldl (addLogSel sel) acc ls
     = (fst acc + sum_list (map (selTotal sel) ls), snd acc + sum_list (map (selCorrect sel) ls))"
  by (induction ls arbitrary: acc) (simp_all add: addLogSel_eq)

lemma foldl_addLogAll:
  "foldl addLogAll acc ls
     = (fst acc + sum_list (map (selTotal None) ls), snd acc + sum_list (map (selCorrect None) ls))"
  by (induction ls arbitrary: acc) (simp_all add: addLogAll_eq)

lemma addLogSel3_eq:
  "addLogSel3 sel acc l
     = (fst acc + selTotal sel l, fst (snd acc) + selCorrect sel l, snd (snd acc) + selDuration sel l)"
  by (cases sel) (simp_all add: addLogSel3_def addRecord3_def catOrder_def)

lemma foldl_addLogSel3:
  "foldl (addLogSel3 sel) acc ls
     = (fst acc + sum_list (map (selTotal sel) ls),
        fst (snd acc) + sum_list (map (selCorrect sel) ls),
        snd (snd acc) + sum_list (map (selDuration sel) ls))"
  by (induction ls arbitrary: acc) (simp_all add: addLogSel3_eq)

lemma getTotalQuestions_from:
  "foldl (\<lambda>acc l. acc + foldl (\<lambda>s cat. s + total cat) 0 (map (categories l) catOrder)) a ls
     = a + sum_list (map (selTotal None) ls)"
  by (induction ls arbitrary: a) (simp_all add: catOrder_def)

lemma getTotalQuestions_eq: "getTotalQuestions ls = sum_list (map (selTotal None) ls)"
  by (simp add: getTotalQuestions_def getTotalQuestions_from)

lemma viewStats_eq:
  "totalQuestions (viewStats sel ls) = sum_list (map (selTotal sel) ls)"
  "totalDuration (viewStats sel ls) = sum_list (map (selDuration sel) ls)"
  "vs_accuracy (viewStats sel ls)
     = accuracy (sum_list (map (selTotal sel) ls)) (sum_list (map (selCorrect sel) ls))"
  by (simp_all add: viewStats_def Let_def foldl_addLogSel3)

lemma zero_selTotal:
  "\<forall>k. total (categories l k) = 0 \<Longrightarrow> selTotal sel l = 0"
  by (cases sel) (simp_all add: catOrder_def)

lemma zero_sum_selTotal:
  "\<forall>l\<in>set ls. \<forall>k. total (categories l k) = 0 \<Longrightarrow> sum_list (map (selTotal sel) ls) = 0"
  by (induction ls) (simp_all add: zero_selTotal)

lemma zero_catTotal:
  "\<forall>l\<in>set ls. \<forall>k. total (categories l k) = 0 \<Longrightarrow> catTotal ls k = 0"
  by (induction ls) (simp_all add: catTotal_def)

lemma insort_key_map_same:
  assumes "\<And>l. k (f l) = k l"
  shows "insort_key k (f x) (map f ys) = map f (insort_key k x ys)"
  by (induction ys) (simp_all add: assms)

lemma sort_key_map_same:
  assumes "\<And>l. k (f l) = k l"
  shows "sort_key k (map f xs) = map f (sort_key k xs)"
  by (induction xs) (simp_all add: insort_key_map_same[where k = k and f = f] assms)

lemma streakLoop_map:
  assumes "\<And>l. log_date (f l) = log_date l"
  shows "streakLoop now z (map f xs) p c st = streakLoop now z xs p c st"
  by (induction xs arbitrary: p c st) (simp_all add: assms Let_def)

lemma calculateStreak_records:
  "calculateStreak now z (map (\<lambda>l. l\<lparr>categories := cs l\<rparr>) ls) = calculateStreak now z ls"
proof (cases "ls = []")
  case True
  then show ?thesis by (simp add: calculateStreak_def)
next
  case False
  let ?f = "\<lambda>l. l\<lparr>categories := cs l\<rparr>"
  let ?srt = "sort_key (\<lambda>l. - log_timestamp l) ls"
  have s: "sort_key (\<lambda>l. - log_timestamp l) (map ?f ls) = map ?f ?srt"
    by (rule sort_key_map_same[where k = "\<lambda>l. - log_timestamp l"]) simp
  have ne: "?srt \<noteq> []" using False by (metis set_sort set_empty)
  have h: "log_date (hd (map ?f ?srt)) = log_date (hd ?srt)" using ne by (simp add: hd_map)
  have l: "streakLoop now z (map ?f ?srt) p c st = streakLoop now z ?srt p c st" for p c st
    by (rule streakLoop_map) simp
  show ?thesis
    unfolding calculateStreak_def Let_def s h l using False by simp
qed

text \<open>
  C8, as amended. On an empty log set every aggregate returns its zero or none result: the
  streak is 0, the summed totals are 0, the accuracies are 0 and the weakest category is none.
  The accuracy is 0 whenever the summed total is 0, whatever the number of correct answers, so
  no division by zero is evaluated. On logs whose records all have total 0 the summed totals
  and the accuracies are 0 and the weakest category is none. The streak does not read the
  records: putting other records, all-zero or not, in place of those of every log leaves it
  unchanged, so the streak of all-zero logs is that of any logs with their dates and
  timestamps. Every function of the model is total, as the source has no failing path on
  these inputs.
\<close>

theorem empty_and_zero_aggregates:
  "calculateStreak now z [] = 0
   \<and> getTotalQuestions [] = 0
   \<and> totalQuestions (viewStats sel []) = 0
   \<and> totalDuration (viewStats sel []) = 0
   \<and> vs_accuracy (viewStats sel []) = 0
   \<and> dayAccuracy [] = 0
   \<and> dayAccuracyRS sel [] = 0
   \<and> getWeakestCategory [] = None
   \<and> accuracy 0 c = 0
   \<and> (totalQuestions (viewStats sel ls) = 0 \<longrightarrow> vs_accuracy (viewStats sel ls) = 0)
   \<and> ((\<forall>l\<in>set ls. \<forall>k. total (categories l k) = 0) \<longrightarrow>
        getTotalQuestions ls = 0 \<and> totalQuestions (viewStats sel ls) = 0
        \<and> vs_accuracy (viewStats sel ls) = 0 \<and> dayAccuracy ls = 0 \<and> dayAccuracyRS sel ls = 0
        \<and> getWeakestCategory ls = None)
   \<and> calculateStreak now z (map (\<lambda>l. l\<lparr>categories := cs l\<rparr>) ls) = calculateStreak now z ls"
proof -
  note r = calculateStreak_records[of now z cs ls]
  have e: "calculateStreak now z [] = 0 \<and> getTotalQuestions [] = 0
     \<and> totalQuestions (viewStats sel []) = 0 \<and> totalDuration (viewStats sel []) = 0
     \<and> vs_accuracy (viewStats sel []) = 0 \<and> dayAccuracy [] = 0 \<and> dayAccuracyRS sel [] = 0
     \<and> getWeakestCategory [] = None \<and> accuracy 0 c = 0"
    by (simp add: calculateStreak_def getTotalQuestions_def viewStats_eq accuracy_zero
          dayAccuracy_def dayAccuracyRS_def getWeakestCategory_def)
  have g: "totalQuestions (viewStats sel ls) = 0 \<longrightarrow> vs_accuracy (viewStats sel ls) = 0"
    by (simp add: viewStats_eq accuracy_zero)
  have z: "(\<forall>l\<in>set ls. \<forall>k. total (categories l k) = 0) \<longrightarrow>
        getTotalQuestions ls = 0 \<and> totalQuestions (viewStats sel ls) = 0
        \<and> vs_accuracy (viewStats sel ls) = 0 \<and> dayAccuracy ls = 0 \<and> dayAccuracyRS sel ls = 0
        \<and> getWeakestCategory ls = None"
  proof
    assume a: "\<forall>l\<in>set ls. \<forall>k. total (categories l k) = 0"
    have w: "getWeakestCategory ls = None"
    proof (cases "ls = []")
      case True
      then show ?thesis by (simp add: getWeakestCategory_def)
    next
      case False
      from weakest_cases[OF False] show ?thesis using zero_catTotal[OF a] by auto
    qed
    show "getTotalQuestions ls = 0 \<and> totalQuestions (viewStats sel ls) = 0
        \<and> vs_accuracy (viewStats sel ls) = 0 \<and> dayAccuracy ls = 0 \<and> dayAccuracyRS sel ls = 0
        \<and> getWeakestCategory ls = None"
      using w zero_sum_selTotal[OF a]
      by (simp add: getTotalQuestions_eq viewStats_eq accuracy_zero dayAccuracy_def dayAccuracyRS_def
            foldl_addLogAll foldl_addLogSel)
  qed
  from e g z r show ?thesis by blast
qed

theorem empty_and_zero_aggregates_witness:
  "total (categories zeroLog Speech) = 0 \<and> total (categories zeroLog Politics) = 0
   \<and> total (categories zeroLog Common) = 0 \<and> total (categories zeroLog Logic) = 0
   \<and> total (categories zeroLog Data) = 0
   \<and> getTotalQuestions [zeroLog] = 0 \<and> totalQuestions (viewStats None [zeroLog]) = 0
   \<and> vs_accuracy (viewStats None [zeroLog]) = 0 \<and> getWeakestCategory [zeroLog] = None
   \<and> calculateStreak 0 (fixedZone 0) [] = 0"
proof -
  have h: "\<forall>l\<in>set [zeroLog]. \<forall>k. total (categories l k) = 0"
  proof (intro ballI allI)
    fix l k assume "l \<in> set [zeroLog]"
    then have "l = zeroLog" by simp
    then show "total (categories l k) = 0"
      by (cases k) (simp_all add: zeroLog_def mkLog_def rec3_def)
  qed
  have "getTotalQuestions [zeroLog] = 0 \<and> totalQuestions (viewStats None [zeroLog]) = 0
   \<and> vs_accuracy (viewStats None [zeroLog]) = 0 \<and> getWeakestCategory [zeroLog] = None
   \<and> calculateStreak 0 (fixedZone 0) [] = 0"
    using h empty_and_zero_aggregates[where ls = "[zeroLog]" and sel = None and now = 0 and z = "fixedZone 0" and c = 0]
    by blast
  then show ?thesis by (simp add: zeroLog_def mkLog_def rec3_def)
qed

text \<open>
  The claim as stated fails for the streak on all-zero inputs: a single log dated 2024-01-02
  whose records are all zero, read at 21:00 of that day in the zone UTC+8, gives the streak
  1, not 0.
\<close>

theorem zero_log_streak_counterexample:
  "categories zeroLog Speech = \<lparr> total = 0, correct = 0, duration = 0 \<rparr>
   \<and> categories zeroLog Politics = \<lparr> total = 0, correct = 0, duration = 0 \<rparr>
   \<and> categories zeroLog Common = \<lparr> total = 0, correct = 0, duration = 0 \<rparr>
   \<and> categories zeroLog Logic = \<lparr> total = 0, correct = 0, duration = 0 \<rparr>
   \<and> categories zeroLog Data = \<lparr> total = 0, correct = 0, duration = 0 \<rparr>
   \<and> log_date zeroLog = 19724
   \<and> dayOf (fixedZone tzEast) 1704200400000 = 19724
   \<and> dayOf (fixedZone tzEast) (log_timestamp zeroLog) = 19724
   \<and> calculateStreak 1704200400000 (fixedZone tzEast) [zeroLog] = 1"
  by (simp add: calculateStreak_def Let_def zSetHours0_def fixedZone_def localDay_def
        localMidnight_def msPerDay_def tzEast_def zeroLog_def mkLog_def rec3_def)

section \<open>Loading the persisted state\<close>

lemma setProp_fresh: "k \<notin> fst ` set ps \<Longrightarrow> setProp k v ps = ps @ [(k, v)]"
  by (induction ps) auto

lemma map_of_setProp: "map_of (setProp k v ps) = (map_of ps)(k \<mapsto> v)"
  by (induction ps) (auto simp: fun_eq_iff)

lemma map_of_absent: "k \<notin> fst ` set ps \<Longrightarrow> map_of ps k = None"
  by (simp add: map_of_eq_None_iff)

lemma map_fst_setProp: "k \<in> fst ` set ps \<Longrightarrow> map fst (setProp k v ps) = map fst ps"
  by (induction ps) auto

text \<open>
  C10, as amended. \<^verbatim>\<open>loadState\<close> never raises to the caller. It returns the empty default
  state when reading the store throws, when nothing or the empty string is stored, when the
  stored string does not parse, and when it parses to \<^verbatim>\<open>null\<close>, a boolean, a number or a
  string. A parsed object that lacks the \<open>reviews\<close> field is returned with \<open>reviews\<close>
  set to the empty mapping, added as its last field, and all other fields preserved. A parsed
  object whose \<open>reviews\<close> field holds a falsy value is returned with that field set to the
  empty mapping, in its place, and all other fields preserved. An object with a truthy
  \<open>reviews\<close> is returned as it is. No other field is inspected: whatever else is absent or
  malformed in a parsed object stays as it is in the result.
\<close>

theorem loadState_fallback_and_migration:
  "loadState parse GetItemThrows = DEFAULT_STATE
   \<and> loadState parse (Item None) = DEFAULT_STATE
   \<and> loadState parse (Item (Some [])) = DEFAULT_STATE
   \<and> (parse s = None \<longrightarrow> loadState parse (Item (Some s)) = DEFAULT_STATE)
   \<and> (parse s \<in> {Some JNull, Some (JBool b), Some (JNum x), Some (JStr w)} \<longrightarrow>
        loadState parse (Item (Some s)) = DEFAULT_STATE)
   \<and> (s \<noteq> [] \<and> parse s = Some (JObj ps) \<and> ''reviews'' \<notin> fst ` set ps \<longrightarrow>
        loadState parse (Item (Some s)) = JObj (ps @ [(''reviews'', JObj [])]))
   \<and> (s \<noteq> [] \<and> parse s = Some (JObj ps) \<and> truthy (map_of ps ''reviews'') \<longrightarrow>
        loadState parse (Item (Some s)) = JObj ps)
   \<and> (s \<noteq> [] \<and> parse s = Some (JObj ps) \<and> \<not> truthy (map_of ps ''reviews'') \<longrightarrow>
        loadState parse (Item (Some s)) = JObj (setProp ''reviews'' (JObj []) ps)
        \<and> map_of (setProp ''reviews'' (JObj []) ps) ''reviews'' = Some (JObj [])
        \<and> (\<forall>k. k \<noteq> ''reviews'' \<longrightarrow> map_of (setProp ''reviews'' (JObj []) ps) k = map_of ps k)
        \<and> (''reviews'' \<in> fst ` set ps \<longrightarrow> map fst (setProp ''reviews'' (JObj []) ps) = map fst ps))"
proof -
  have 1: "loadState parse GetItemThrows = DEFAULT_STATE
   \<and> loadState parse (Item None) = DEFAULT_STATE
   \<and> loadState parse (Item (Some [])) = DEFAULT_STATE
   \<and> (parse s = None \<longrightarrow> loadState parse (Item (Some s)) = DEFAULT_STATE)"
    by (simp add: loadState_def)
  have 2: "parse s \<in> {Some JNull, Some (JBool b), Some (JNum x), Some (JStr w)} \<longrightarrow>
        loadState parse (Item (Some s)) = DEFAULT_STATE"
    by (auto simp: loadState_def)
  have 3: "s \<noteq> [] \<and> parse s = Some (JObj ps) \<and> ''reviews'' \<notin> fst ` set ps \<longrightarrow>
        loadState parse (Item (Some s)) = JObj (ps @ [(''reviews'', JObj [])])"
    by (simp add: loadState_def map_of_absent setProp_fresh)
  have 4: "s \<noteq> [] \<and> parse s = Some (JObj ps) \<and> truthy (map_of ps ''reviews'') \<longrightarrow>
        loadState parse (Item (Some s)) = JObj ps"
    by (simp add: loadState_def)
  have 5: "s \<noteq> [] \<and> parse s = Some (JObj ps) \<and> \<not> truthy (map_of ps ''reviews'') \<longrightarrow>
        loadState parse (Item (Some s)) = JObj (setProp ''reviews'' (JObj []) ps)
        \<and> map_of (setProp ''reviews'' (JObj []) ps) ''reviews'' = Some (JObj [])
        \<and> (\<forall>k. k \<noteq> ''reviews'' \<longrightarrow> map_of (setProp ''reviews'' (JObj []) ps) k = map_of ps k)
        \<and> (''reviews'' \<in> fst ` set ps \<longrightarrow> map fst (setProp ''reviews'' (JObj []) ps) = map fst ps)"
    by (simp add: loadState_def map_of_setProp map_fst_setProp)
  from 1 2 3 4 5 show ?thesis by blast
qed

theorem loadState_fallback_and_migration_witness:
  "loadState parseLogsOnly (Item (Some logsOnlyBlob))
     = JObj [(''logs'', JObj []), (''reviews'', JObj [])]
   \<and> loadState parseLogsOnly (Item (Some ''{'')) = DEFAULT_STATE
   \<and> map_of [(''logs'', JObj []), (''reviews'', JNull)] ''reviews'' = Some JNull
   \<and> loadState parseNullReviews (Item (Some nullReviewsBlob))
     = JObj [(''logs'', JObj []), (''reviews'', JObj [])]"
proof -
  have a: "logsOnlyBlob \<noteq> [] \<and> parseLogsOnly logsOnlyBlob = Some (JObj [(''logs'', JObj [])])
            \<and> ''reviews'' \<notin> fst ` set [(''logs'', JObj [])]"
    by (simp add: parseLogsOnly_def logsOnlyBlob_def)
  have b: "parseLogsOnly ''{'' = None" by (simp add: parseLogsOnly_def logsOnlyBlob_def)
  have c: "nullReviewsBlob \<noteq> []
            \<and> parseNullReviews nullReviewsBlob = Some (JObj [(''logs'', JObj []), (''reviews'', JNull)])
            \<and> \<not> truthy (map_of [(''logs'', JObj []), (''reviews'', JNull)] ''reviews'')"
    by (simp add: parseNullReviews_def nullReviewsBlob_def)
  show ?thesis
    using a b c
          loadState_fallback_and_migration[where parse = parseLogsOnly and s = logsOnlyBlob
                and ps = "[(''logs'', JObj [])]"]
          loadState_fallback_and_migration[where parse = parseLogsOnly and s = "''{''"]
          loadState_fallback_and_migration[where parse = parseNullReviews and s = nullReviewsBlob
                and ps = "[(''logs'', JObj []), (''reviews'', JNull)]"]
    by simp
qed

text \<open>
  The claim as stated fails on a stored object that has \<open>logs\<close> but no \<open>targets\<close>: it is
  returned with \<open>reviews\<close> added, not replaced by the default state.
\<close>

theorem loadState_counterexample:
  "map_of [(''logs'', JObj [])] ''targets'' = None
   \<and> loadState parseLogsOnly (Item (Some logsOnlyBlob)) = JObj [(''logs'', JObj []), (''reviews'', JObj [])]
   \<and> loadState parseLogsOnly (Item (Some logsOnlyBlob)) \<noteq> DEFAULT_STATE"
  by (simp add: loadState_def parseLogsOnly_def logsOnlyBlob_def DEFAULT_STATE_def)

section \<open>Staged deletion\<close>

text \<open>
  C1. \<^verbatim>\<open>handleDeleteFlow\<close> calls \<^verbatim>\<open>onDeleteRange\<close> if and only if the step is 3, and then
  it passes the chosen dates and resets the step to 0 (Idle), the dates to empty and the
  cached size estimate to empty. At step 1 with a missing start or end date it changes
  nothing; with both dates it moves to step 2. At step 2 it stores the size estimate computed
  for the chosen dates and moves to step 3; at no other step is a size estimate stored. For
  every control of the footer, the application state changes only when the main button is
  pressed at step 3, and then by \<^verbatim>\<open>handleDeleteRange\<close> on the chosen dates, the drawer going
  back to step 0. Aborting leaves the application state, hence logs and notes, unchanged and
  puts the drawer at step 0 outside delete mode.
\<close>

theorem staged_deletion_flow:
  "(snd (handleDeleteFlow sizeText tz ls rs d) \<noteq> None \<longleftrightarrow> deleteConfirmStep d = 3)
   \<and> (deleteConfirmStep d = 3 \<longrightarrow>
        snd (handleDeleteFlow sizeText tz ls rs d) = Some (deleteStart d, deleteEnd d)
        \<and> deleteConfirmStep (fst (handleDeleteFlow sizeText tz ls rs d)) = 0
        \<and> deleteStart (fst (handleDeleteFlow sizeText tz ls rs d)) = Blank
        \<and> deleteEnd (fst (handleDeleteFlow sizeText tz ls rs d)) = Blank
        \<and> estimatedSize (fst (handleDeleteFlow sizeText tz ls rs d)) = []
        \<and> isDeleteMode (fst (handleDeleteFlow sizeText tz ls rs d)) = False)
   \<and> (deleteConfirmStep d = 1 \<and> (deleteStart d = Blank \<or> deleteEnd d = Blank) \<longrightarrow>
        handleDeleteFlow sizeText tz ls rs d = (d, None))
   \<and> (deleteConfirmStep d = 1 \<and> deleteStart d \<noteq> Blank \<and> deleteEnd d \<noteq> Blank \<longrightarrow>
        handleDeleteFlow sizeText tz ls rs d = (d\<lparr> deleteConfirmStep := 2 \<rparr>, None))
   \<and> (deleteConfirmStep d = 2 \<longrightarrow>
        handleDeleteFlow sizeText tz ls rs d
          = (d\<lparr> estimatedSize := calculateDataSize sizeText tz ls rs (deleteStart d) (deleteEnd d),
                deleteConfirmStep := 3 \<rparr>, None))
   \<and> (deleteConfirmStep d \<noteq> 2 \<and> deleteConfirmStep d \<noteq> 3 \<longrightarrow>
        estimatedSize (fst (handleDeleteFlow sizeText tz ls rs d)) = estimatedSize d)
   \<and> (fst (drawerStep sizeText tz (app, d) ev) \<noteq> app \<longrightarrow>
        ev = Advance \<and> isDeleteMode d \<and> deleteConfirmStep d = 3
        \<and> fst (drawerStep sizeText tz (app, d) ev) = handleDeleteRange tz (deleteStart d) (deleteEnd d) app
        \<and> deleteConfirmStep (snd (drawerStep sizeText tz (app, d) ev)) = 0)
   \<and> fst (drawerStep sizeText tz (app, d) Abort) = app
   \<and> (isDeleteMode d \<longrightarrow>
        deleteConfirmStep (snd (drawerStep sizeText tz (app, d) Abort)) = 0
        \<and> \<not> isDeleteMode (snd (drawerStep sizeText tz (app, d) Abort)))"
proof -
  have a: "(snd (handleDeleteFlow sizeText tz ls rs d) \<noteq> None \<longleftrightarrow> deleteConfirmStep d = 3)
   \<and> (deleteConfirmStep d = 3 \<longrightarrow>
        snd (handleDeleteFlow sizeText tz ls rs d) = Some (deleteStart d, deleteEnd d)
        \<and> deleteConfirmStep (fst (handleDeleteFlow sizeText tz ls rs d)) = 0
        \<and> deleteStart (fst (handleDeleteFlow sizeText tz ls rs d)) = Blank
        \<and> deleteEnd (fst (handleDeleteFlow sizeText tz ls rs d)) = Blank
        \<and> estimatedSize (fst (handleDeleteFlow sizeText tz ls rs d)) = []
        \<and> isDeleteMode (fst (handleDeleteFlow sizeText tz ls rs d)) = False)"
    by (simp add: handleDeleteFlow_def Let_def)
  have b: "(deleteConfirmStep d = 1 \<and> (deleteStart d = Blank \<or> deleteEnd d = Blank) \<longrightarrow>
        handleDeleteFlow sizeText tz ls rs d = (d, None))
   \<and> (deleteConfirmStep d = 1 \<and> deleteStart d \<noteq> Blank \<and> deleteEnd d \<noteq> Blank \<longrightarrow>
        handleDeleteFlow sizeText tz ls rs d = (d\<lparr> deleteConfirmStep := 2 \<rparr>, None))
   \<and> (deleteConfirmStep d = 2 \<longrightarrow>
        handleDeleteFlow sizeText tz ls rs d
          = (d\<lparr> estimatedSize := calculateDataSize sizeText tz ls rs (deleteStart d) (deleteEnd d),
                deleteConfirmStep := 3 \<rparr>, None))
   \<and> (deleteConfirmStep d \<noteq> 2 \<and> deleteConfirmStep d \<noteq> 3 \<longrightarrow>
        estimatedSize (fst (handleDeleteFlow sizeText tz ls rs d)) = estimatedSize d)"
    by (simp add: handleDeleteFlow_def Let_def)
  have c: "fst (drawerStep sizeText tz (app, d) ev) \<noteq> app \<longrightarrow>
        ev = Advance \<and> isDeleteMode d \<and> deleteConfirmStep d = 3
        \<and> fst (drawerStep sizeText tz (app, d) ev) = handleDeleteRange tz (deleteStart d) (deleteEnd d) app
        \<and> deleteConfirmStep (snd (drawerStep sizeText tz (app, d) ev)) = 0"
    by (cases ev) (auto simp: handleDeleteFlow_def Let_def split: if_splits)
  have e: "fst (drawerStep sizeText tz (app, d) Abort) = app
   \<and> (isDeleteMode d \<longrightarrow>
        deleteConfirmStep (snd (drawerStep sizeText tz (app, d) Abort)) = 0
        \<and> \<not> isDeleteMode (snd (drawerStep sizeText tz (app, d) Abort)))"
    by simp
  from a b c e show ?thesis by blast
qed


theorem staged_deletion_flow_witness:
  "deleteConfirmStep (drawerAt 3 (Ymd 19724) (Ymd 19724) ''x'') = 3
   \<and> drawerStep sizeStub tzEast (sampleState, drawerAt 3 (Ymd 19724) (Ymd 19724) ''x'') Advance
       = (handleDeleteRange tzEast (Ymd 19724) (Ymd 19724) sampleState, initialDrawer)
   \<and> deleteConfirmStep (drawerAt 1 (Ymd 19724) Blank []) = 1
   \<and> handleDeleteFlow sizeStub tzEast (currentLogs sampleState) (currentReviews sampleState)
        (drawerAt 1 (Ymd 19724) Blank [])
       = (drawerAt 1 (Ymd 19724) Blank [], None)
   \<and> handleDeleteFlow sizeStub tzEast (currentLogs sampleState) (currentReviews sampleState)
        (drawerAt 2 (Ymd 19724) (Ymd 19724) [])
       = (drawerAt 3 (Ymd 19724) (Ymd 19724)
            (calculateDataSize sizeStub tzEast (currentLogs sampleState) (currentReviews sampleState)
               (Ymd 19724) (Ymd 19724)), None)
   \<and> drawerStep sizeStub tzEast (sampleState, drawerAt 2 (Ymd 19724) (Ymd 19724) []) Abort
       = (sampleState, (drawerAt 0 (Ymd 19724) (Ymd 19724) [])\<lparr> isDeleteMode := False \<rparr>)"
  using
    staged_deletion_flow[where d = "drawerAt 3 (Ymd 19724) (Ymd 19724) ''x''" and app = sampleState
      and ev = Advance and sizeText = sizeStub and tz = tzEast and ls = "currentLogs sampleState"
      and rs = "currentReviews sampleState"]
    staged_deletion_flow[where d = "drawerAt 1 (Ymd 19724) Blank []" and app = sampleState
      and ev = Abort and sizeText = sizeStub and tz = tzEast and ls = "currentLogs sampleState"
      and rs = "currentReviews sampleState"]
    staged_deletion_flow[where d = "drawerAt 2 (Ymd 19724) (Ymd 19724) []" and app = sampleState
      and ev = Abort and sizeText = sizeStub and tz = tzEast and ls = "currentLogs sampleState"
      and rs = "currentReviews sampleState"]
  by (simp add: drawerAt_def initialDrawer_def handleDeleteFlow_def)

section \<open>Calendar days and time values\<close>

lemma msPerDay_pos: "0 < msPerDay"
  by (simp add: msPerDay_def)

lemma localDay_offset:
  "0 \<le> k \<Longrightarrow> k < msPerDay \<Longrightarrow> localDay tz (localMidnight tz d + k) = d"
  by (simp add: localDay_def localMidnight_def msPerDay_def)

lemma localDay_midnight: "localDay tz (localMidnight tz d) = d"
  using localDay_offset[of 0 tz d] msPerDay_pos by simp

lemma setHours_midnight:
  "setHours0 tz (localMidnight tz d) = localMidnight tz d"
  "setHoursEnd tz (localMidnight tz d) = localMidnight tz d + (msPerDay - 1)"
  by (simp_all add: setHours0_def setHoursEnd_def localDay_midnight)

lemma localMidnight_le_iff: "localMidnight tz a \<le> localMidnight tz b \<longleftrightarrow> a \<le> b"
  by (simp add: localMidnight_def msPerDay_def)

lemma localMidnight_eq_iff: "localMidnight tz a = localMidnight tz b \<longleftrightarrow> a = b"
  by (simp add: localMidnight_def msPerDay_def)


lemma localMidnight_pred: "localMidnight tz d - msPerDay = localMidnight tz (d - 1)"
  by (simp add: localMidnight_def algebra_simps)



section \<open>Range decisions of the filter, the estimator and the executor\<close>

lemma range_bounds_east:
  "0 \<le> tz \<Longrightarrow> tz < msPerDay \<Longrightarrow>
     rangeStart tz (Ymd s) = Some (localMidnight tz s)
     \<and> rangeEnd tz (Ymd e) = Some (localMidnight tz e + (msPerDay - 1))"
  by (simp add: rangeStart_def rangeEnd_def setHours0_def setHoursEnd_def localDay_def)

lemma periodLogs_eq:
  "periodLogs now tz ls (Ymd s) (Ymd e)
     = filter (\<lambda>l. localMidnight tz s
                     \<le> (if log_timestamp l \<noteq> 0 then log_timestamp l else localMidnight tz (log_date l))
                   \<and> (if log_timestamp l \<noteq> 0 then log_timestamp l else localMidnight tz (log_date l))
                     \<le> localMidnight tz e + (msPerDay - 1)) ls"
  by (simp add: periodLogs_def getStartOfDay_def getEndOfDay_def setHours_midnight Let_def)

lemma periodReviews_set:
  "set (periodReviews now tz rs (Ymd s) (Ymd e))
     = {r \<in> set rs. localMidnight tz s \<le> rev_timestamp r
                    \<and> rev_timestamp r \<le> localMidnight tz e + (msPerDay - 1)}"
  by (auto simp add: periodReviews_def getStartOfDay_def getEndOfDay_def setHours_midnight Let_def)

lemma logsInRange_east:
  "0 \<le> tz \<Longrightarrow> tz < msPerDay \<Longrightarrow>
     logsInRange tz ls (Ymd s) (Ymd e)
       = filter (\<lambda>l. localMidnight tz s \<le> logTime l \<and> logTime l \<le> localMidnight tz e + (msPerDay - 1)) ls"
  by (simp add: logsInRange_def range_bounds_east Let_def)

lemma reviewsInRange_east:
  "0 \<le> tz \<Longrightarrow> tz < msPerDay \<Longrightarrow>
     reviewsInRange tz rs (Ymd s) (Ymd e)
       = filter (\<lambda>r. localMidnight tz s \<le> rev_timestamp r
                    \<and> rev_timestamp r \<le> localMidnight tz e + (msPerDay - 1)) rs"
  by (simp add: reviewsInRange_def range_bounds_east Let_def)

lemma fallback_east:
  "0 \<le> tz \<Longrightarrow> tz < msPerDay \<Longrightarrow>
     (localMidnight tz s \<le> d * msPerDay \<and> d * msPerDay \<le> localMidnight tz e + (msPerDay - 1))
       \<longleftrightarrow> (s \<le> d \<and> d \<le> e)"
  unfolding localMidnight_def msPerDay_def by arith

lemma fallback_local:
  "(localMidnight tz s \<le> localMidnight tz d \<and> localMidnight tz d \<le> localMidnight tz e + (msPerDay - 1))
       \<longleftrightarrow> (s \<le> d \<and> d \<le> e)"
  unfolding localMidnight_def msPerDay_def by arith

text \<open>East of UTC the three decisions coincide.\<close>

lemma range_decision_east:
  assumes "0 \<le> tz" "tz < msPerDay"
  shows "periodLogs now tz ls (Ymd s) (Ymd e) = logsInRange tz ls (Ymd s) (Ymd e)"
    and "filter (\<lambda>l. \<not> (js_lt (logTime l) (rangeStart tz (Ymd s)) \<or> js_gt (logTime l) (rangeEnd tz (Ymd e)))) ls
           = logsInRange tz ls (Ymd s) (Ymd e)"
proof -
  show "periodLogs now tz ls (Ymd s) (Ymd e) = logsInRange tz ls (Ymd s) (Ymd e)"
    unfolding periodLogs_eq logsInRange_east[OF assms]
    by (rule filter_cong) (auto simp: logTime_def fallback_east[OF assms] fallback_local)
  show "filter (\<lambda>l. \<not> (js_lt (logTime l) (rangeStart tz (Ymd s)) \<or> js_gt (logTime l) (rangeEnd tz (Ymd e)))) ls
           = logsInRange tz ls (Ymd s) (Ymd e)"
    unfolding logsInRange_east[OF assms]
    by (simp add: range_bounds_east[OF assms] not_less)
qed

lemma west_times:
  "rangeStart tzWest (Ymd 19724) = Some 1704085200000"
  "rangeEnd tzWest (Ymd 19724) = Some 1704171599999"
  "localMidnight tzWest 19724 = 1704171600000"
  "logTime (logAt tzWest ''w1'' 19723 43200000) = 1704128400000"
  "logTime (logAt tzWest ''w2'' 19724 43200000) = 1704214800000"
  "log_timestamp (logAt tzWest ''w1'' 19723 43200000) = 1704128400000"
  "log_timestamp (logAt tzWest ''w2'' 19724 43200000) = 1704214800000"
  by (simp_all add: rangeStart_def rangeEnd_def setHours0_def setHoursEnd_def localDay_def
        localMidnight_def msPerDay_def tzWest_def logTime_def logAt_def mkLog_def)

text \<open>
  C2, evaluated where the code departs from it. In UTC-5, with the range from 2024-01-02 to
  2024-01-02 and a target holding a log written at noon of 2024-01-01 and one written at noon
  of 2024-01-02: the aggregation filter of ReviewSection matches the log of 2024-01-02; the
  size estimator of HistoryDrawer matches the log of 2024-01-01 instead; the executor of
  App.tsx removes the log of 2024-01-01 and keeps the one of 2024-01-02. The filter reads the
  dates with \<^verbatim>\<open>parseLocal\<close>, the other two with \<^verbatim>\<open>new Date\<close>, which takes a date-only
  string as UTC midnight, the evening before in a zone west of UTC.
\<close>

theorem range_decision_west:
  "periodLogs 0 tzWest (currentLogs westState) (Ymd 19724) (Ymd 19724)
     = [logAt tzWest ''w2'' 19724 43200000]
   \<and> logsInRange tzWest (currentLogs westState) (Ymd 19724) (Ymd 19724)
     = [logAt tzWest ''w1'' 19723 43200000]
   \<and> logs (handleDeleteRange tzWest (Ymd 19724) (Ymd 19724) westState) ''a''
     = Some [logAt tzWest ''w2'' 19724 43200000]"
proof -
  have cl: "currentLogs westState
              = [logAt tzWest ''w1'' 19723 43200000, logAt tzWest ''w2'' 19724 43200000]"
    by (simp add: currentLogs_def westState_def)
  have a: "periodLogs 0 tzWest (currentLogs westState) (Ymd 19724) (Ymd 19724)
     = [logAt tzWest ''w2'' 19724 43200000]"
    by (simp add: cl periodLogs_eq west_times msPerDay_def)
  have b: "logsInRange tzWest (currentLogs westState) (Ymd 19724) (Ymd 19724)
     = [logAt tzWest ''w1'' 19723 43200000]"
    by (simp add: cl logsInRange_def west_times Let_def)
  have c: "logs (handleDeleteRange tzWest (Ymd 19724) (Ymd 19724) westState) ''a''
     = Some [logAt tzWest ''w2'' 19724 43200000]"
    by (simp add: handleDeleteRange_def westState_def west_times Let_def)
  from a b c show ?thesis by simp
qed

section \<open>Range deletion\<close>

lemma js_outside_iff:
  "(js_lt t (Some a) \<or> js_gt t (Some b)) \<longleftrightarrow> \<not> (a \<le> t \<and> t \<le> b)"
  by auto

text \<open>
  The frame of range deletion. With no selected target (\<^verbatim>\<open>null\<close> or the empty identifier)
  range deletion returns the state unchanged. With a selected target it leaves the targets
  list, the selected identifier and the logs and reviews of every other target unchanged,
  and, for two chosen calendar dates, the selected target's logs and reviews become those
  that lie outside the bounds the handler computes from the dates, in their order. In a time
  zone at or east of UTC these bounds are local 00:00:00.000 of the start date and local
  23:59:59.999 of the end date, so that the logs and reviews removed there are exactly those
  in the range.
\<close>

theorem handleDeleteRange_frame:
  "((selectedTargetId st = None \<or> selectedTargetId st = Some []) \<longrightarrow>
       handleDeleteRange tz sd ed st = st)
   \<and> (selectedTargetId st = Some tid \<and> tid \<noteq> [] \<longrightarrow>
        targets (handleDeleteRange tz sd ed st) = targets st
        \<and> selectedTargetId (handleDeleteRange tz sd ed st) = selectedTargetId st
        \<and> (\<forall>other. other \<noteq> tid \<longrightarrow>
              logs (handleDeleteRange tz sd ed st) other = logs st other
              \<and> reviews (handleDeleteRange tz sd ed st) other = reviews st other)
        \<and> (sd = Ymd s \<and> ed = Ymd e \<longrightarrow>
              logs (handleDeleteRange tz sd ed st) tid
                = Some (filter (\<lambda>l. \<not> (setHours0 tz (s * msPerDay) \<le> logTime l
                                       \<and> logTime l \<le> setHoursEnd tz (e * msPerDay)))
                          (currentLogs st))
              \<and> reviews (handleDeleteRange tz sd ed st) tid
                = Some (filter (\<lambda>r. \<not> (setHours0 tz (s * msPerDay) \<le> rev_timestamp r
                                       \<and> rev_timestamp r \<le> setHoursEnd tz (e * msPerDay)))
                          (currentReviews st)))
        \<and> (sd = Ymd s \<and> ed = Ymd e \<and> 0 \<le> tz \<and> tz < msPerDay \<longrightarrow>
              logs (handleDeleteRange tz sd ed st) tid
                = Some (filter (\<lambda>l. \<not> (localMidnight tz s \<le> logTime l
                                       \<and> logTime l \<le> localMidnight tz e + (msPerDay - 1)))
                          (currentLogs st))
              \<and> reviews (handleDeleteRange tz sd ed st) tid
                = Some (filter (\<lambda>r. \<not> (localMidnight tz s \<le> rev_timestamp r
                                       \<and> rev_timestamp r \<le> localMidnight tz e + (msPerDay - 1)))
                          (currentReviews st))))"
proof -
  have a: "(selectedTargetId st = None \<or> selectedTargetId st = Some []) \<longrightarrow>
       handleDeleteRange tz sd ed st = st"
    by (auto simp: handleDeleteRange_def)
  have b: "selectedTargetId st = Some tid \<and> tid \<noteq> [] \<longrightarrow>
        targets (handleDeleteRange tz sd ed st) = targets st
        \<and> selectedTargetId (handleDeleteRange tz sd ed st) = selectedTargetId st
        \<and> (\<forall>other. other \<noteq> tid \<longrightarrow>
              logs (handleDeleteRange tz sd ed st) other = logs st other
              \<and> reviews (handleDeleteRange tz sd ed st) other = reviews st other)"
    by (simp add: handleDeleteRange_def Let_def)
  have c: "selectedTargetId st = Some tid \<and> tid \<noteq> [] \<longrightarrow> (sd = Ymd s \<and> ed = Ymd e \<longrightarrow>
              logs (handleDeleteRange tz sd ed st) tid
                = Some (filter (\<lambda>l. \<not> (setHours0 tz (s * msPerDay) \<le> logTime l
                                       \<and> logTime l \<le> setHoursEnd tz (e * msPerDay)))
                          (currentLogs st))
              \<and> reviews (handleDeleteRange tz sd ed st) tid
                = Some (filter (\<lambda>r. \<not> (setHours0 tz (s * msPerDay) \<le> rev_timestamp r
                                       \<and> rev_timestamp r \<le> setHoursEnd tz (e * msPerDay)))
                          (currentReviews st)))"
    by (simp add: handleDeleteRange_def Let_def rangeStart_def rangeEnd_def js_outside_iff
          currentLogs_def currentReviews_def del: js_lt.simps js_gt.simps)
  have d: "selectedTargetId st = Some tid \<and> tid \<noteq> [] \<longrightarrow>
        (sd = Ymd s \<and> ed = Ymd e \<and> 0 \<le> tz \<and> tz < msPerDay \<longrightarrow>
              logs (handleDeleteRange tz sd ed st) tid
                = Some (filter (\<lambda>l. \<not> (localMidnight tz s \<le> logTime l
                                       \<and> logTime l \<le> localMidnight tz e + (msPerDay - 1)))
                          (currentLogs st))
              \<and> reviews (handleDeleteRange tz sd ed st) tid
                = Some (filter (\<lambda>r. \<not> (localMidnight tz s \<le> rev_timestamp r
                                       \<and> rev_timestamp r \<le> localMidnight tz e + (msPerDay - 1)))
                          (currentReviews st)))"
    by (simp add: handleDeleteRange_def Let_def range_bounds_east js_outside_iff
          currentLogs_def currentReviews_def del: js_lt.simps js_gt.simps)
  from a b c d show ?thesis by blast
qed


lemma sample_time:
  "setHours0 tzEast (19724 * msPerDay) = 1704124800000"
  "setHoursEnd tzEast (19724 * msPerDay) = 1704211199999"
  by (simp_all add: setHours0_def setHoursEnd_def localMidnight_def localDay_def msPerDay_def tzEast_def)

theorem handleDeleteRange_frame_witness:
  "selectedTargetId sampleState = Some ''a''
   \<and> logs (handleDeleteRange tzEast (Ymd 19724) (Ymd 19724) sampleState) ''a''
       = Some [logAt tzEast ''l2'' 19730 32400000]
   \<and> reviews (handleDeleteRange tzEast (Ymd 19724) (Ymd 19724) sampleState) ''a'' = Some []
   \<and> logs (handleDeleteRange tzEast (Ymd 19724) (Ymd 19724) sampleState) ''b''
       = Some [logAt tzEast ''l3'' 19724 43200000]
   \<and> reviews (handleDeleteRange tzEast (Ymd 19724) (Ymd 19724) sampleState) ''b''
       = Some [noteAt tzEast ''r2'' ''b'' 19724 50000000]
   \<and> targets (handleDeleteRange tzEast (Ymd 19724) (Ymd 19724) sampleState) = targets sampleState
   \<and> handleDeleteRange tzEast (Ymd 19724) (Ymd 19724) (sampleState\<lparr> selectedTargetId := None \<rparr>)
       = sampleState\<lparr> selectedTargetId := None \<rparr>"
proof -
  have sel: "selectedTargetId sampleState = Some ''a'' \<and> ''a'' \<noteq> []"
    by (simp add: sampleState_def)
  have cl: "currentLogs sampleState
              = [logAt tzEast ''l1'' 19724 43200000, logAt tzEast ''l2'' 19730 32400000]"
    and cr: "currentReviews sampleState = [noteAt tzEast ''r1'' ''a'' 19724 50000000]"
    and lb: "logs sampleState ''b'' = Some [logAt tzEast ''l3'' 19724 43200000]"
    and rb: "reviews sampleState ''b'' = Some [noteAt tzEast ''r2'' ''b'' 19724 50000000]"
    by (simp_all add: currentLogs_def currentReviews_def sampleState_def)
  have t: "logTime (logAt tzEast ''l1'' 19724 43200000) = 1704168000000"
          "logTime (logAt tzEast ''l2'' 19730 32400000) = 1704675600000"
          "rev_timestamp (noteAt tzEast ''r1'' ''a'' 19724 50000000) = 1704174800000"
    by (simp_all add: logTime_def logAt_def noteAt_def mkLog_def localMidnight_def msPerDay_def tzEast_def)
  have n: "selectedTargetId (sampleState\<lparr> selectedTargetId := None \<rparr>) = None" by simp
  show ?thesis
    using sel
      handleDeleteRange_frame[where st = sampleState and tid = "''a''" and tz = tzEast
        and sd = "Ymd 19724" and ed = "Ymd 19724" and s = 19724 and e = 19724]
      handleDeleteRange_frame[where st = "sampleState\<lparr> selectedTargetId := None \<rparr>" and tz = tzEast
        and sd = "Ymd 19724" and ed = "Ymd 19724"] n
    by (simp add: cl cr lb rb t sample_time)
qed

lemma west_note_times:
  "rev_timestamp (noteAt tzWest ''n1'' ''a'' 19723 54000000) = 1704139200000"
  "rev_timestamp (noteAt tzWest ''n2'' ''a'' 19724 54000000) = 1704225600000"
  by (simp_all add: noteAt_def localMidnight_def msPerDay_def tzWest_def)

text \<open>
  C9, evaluated where the code departs from it. In UTC-5, deleting the range from 2024-01-02
  to 2024-01-02 for a selected target that holds a log and a note written on 2024-01-01 and
  a log and a note written on 2024-01-02: the log and the note of 2024-01-02, which lie in
  the range, are kept, and the log and the note of 2024-01-01, which lie outside it, are
  removed. The handler reads the chosen dates with \<^verbatim>\<open>new Date\<close>, which takes a date-only
  string as UTC midnight, the evening before in a zone west of UTC, so that its bounds are
  those of the previous local day. The targets list, the selected identifier and the other
  target's logs and reviews are unchanged.
\<close>

theorem handleDeleteRange_west:
  "selectedTargetId westNotesState = Some ''a''
   \<and> currentLogs westNotesState
       = [logAt tzWest ''w1'' 19723 43200000, logAt tzWest ''w2'' 19724 43200000]
   \<and> currentReviews westNotesState
       = [noteAt tzWest ''n1'' ''a'' 19723 54000000, noteAt tzWest ''n2'' ''a'' 19724 54000000]
   \<and> localDay tzWest (log_timestamp (logAt tzWest ''w1'' 19723 43200000)) = 19723
   \<and> localDay tzWest (log_timestamp (logAt tzWest ''w2'' 19724 43200000)) = 19724
   \<and> localDay tzWest (rev_timestamp (noteAt tzWest ''n1'' ''a'' 19723 54000000)) = 19723
   \<and> localDay tzWest (rev_timestamp (noteAt tzWest ''n2'' ''a'' 19724 54000000)) = 19724
   \<and> logs (handleDeleteRange tzWest (Ymd 19724) (Ymd 19724) westNotesState) ''a''
       = Some [logAt tzWest ''w2'' 19724 43200000]
   \<and> reviews (handleDeleteRange tzWest (Ymd 19724) (Ymd 19724) westNotesState) ''a''
       = Some [noteAt tzWest ''n2'' ''a'' 19724 54000000]
   \<and> logs (handleDeleteRange tzWest (Ymd 19724) (Ymd 19724) westNotesState) ''b''
       = logs westNotesState ''b''
   \<and> reviews (handleDeleteRange tzWest (Ymd 19724) (Ymd 19724) westNotesState) ''b''
       = reviews westNotesState ''b''
   \<and> targets (handleDeleteRange tzWest (Ymd 19724) (Ymd 19724) westNotesState)
       = targets westNotesState
   \<and> selectedTargetId (handleDeleteRange tzWest (Ymd 19724) (Ymd 19724) westNotesState)
       = selectedTargetId westNotesState"
proof -
  have s: "selectedTargetId westNotesState = Some ''a''" by (simp add: westNotesState_def)
  have cl: "currentLogs westNotesState
       = [logAt tzWest ''w1'' 19723 43200000, logAt tzWest ''w2'' 19724 43200000]"
    and cr: "currentReviews westNotesState
       = [noteAt tzWest ''n1'' ''a'' 19723 54000000, noteAt tzWest ''n2'' ''a'' 19724 54000000]"
    by (simp_all add: currentLogs_def currentReviews_def westNotesState_def)
  have d: "localDay tzWest (log_timestamp (logAt tzWest ''w1'' 19723 43200000)) = 19723"
    "localDay tzWest (log_timestamp (logAt tzWest ''w2'' 19724 43200000)) = 19724"
    "localDay tzWest (rev_timestamp (noteAt tzWest ''n1'' ''a'' 19723 54000000)) = 19723"
    "localDay tzWest (rev_timestamp (noteAt tzWest ''n2'' ''a'' 19724 54000000)) = 19724"
    by (simp_all add: west_times west_note_times) (simp_all add: localDay_def msPerDay_def tzWest_def)
  have l: "logs (handleDeleteRange tzWest (Ymd 19724) (Ymd 19724) westNotesState) ''a''
       = Some [logAt tzWest ''w2'' 19724 43200000]"
    by (simp add: handleDeleteRange_def westNotesState_def west_times Let_def)
  have r: "reviews (handleDeleteRange tzWest (Ymd 19724) (Ymd 19724) westNotesState) ''a''
       = Some [noteAt tzWest ''n2'' ''a'' 19724 54000000]"
    by (simp add: handleDeleteRange_def westNotesState_def west_times west_note_times Let_def)
  have f: "logs (handleDeleteRange tzWest (Ymd 19724) (Ymd 19724) westNotesState) ''b''
       = logs westNotesState ''b''"
    "reviews (handleDeleteRange tzWest (Ymd 19724) (Ymd 19724) westNotesState) ''b''
       = reviews westNotesState ''b''"
    "targets (handleDeleteRange tzWest (Ymd 19724) (Ymd 19724) westNotesState)
       = targets westNotesState"
    "selectedTargetId (handleDeleteRange tzWest (Ymd 19724) (Ymd 19724) westNotesState)
       = selectedTargetId westNotesState"
    by (simp_all add: handleDeleteRange_def westNotesState_def Let_def)
  from s cl cr d l r f show ?thesis by simp
qed

section \<open>The inclusive range filter\<close>

text \<open>
  C3, as amended. For two calendar dates the filter of ReviewSection keeps the logs and the
  notes whose time lies between local 00:00:00.000 of the start date and local 23:59:59.999
  of the end date, both included. With the start not after the end, a log or note stamped
  exactly at the end date's 23:59:59.999 is kept and one stamped 1 ms later is not. A log
  whose timestamp is 0 is matched by its date field, read as local midnight, that is exactly
  when its date lies between the two dates. A note is matched by its timestamp alone. In a
  time zone at or east of UTC the size estimator of HistoryDrawer matches the same logs and
  notes.
\<close>

theorem filteredData_inclusive_range:
  "fst (filteredData now tz ls rs (Ymd s) (Ymd e))
     = filter (\<lambda>l. localMidnight tz s
                     \<le> (if log_timestamp l \<noteq> 0 then log_timestamp l else localMidnight tz (log_date l))
                   \<and> (if log_timestamp l \<noteq> 0 then log_timestamp l else localMidnight tz (log_date l))
                     \<le> localMidnight tz e + (23 * 3600000 + 59 * 60000 + 59 * 1000 + 999)) ls
   \<and> set (snd (filteredData now tz ls rs (Ymd s) (Ymd e)))
     = {r \<in> set rs. localMidnight tz s \<le> rev_timestamp r
          \<and> rev_timestamp r \<le> localMidnight tz e + (23 * 3600000 + 59 * 60000 + 59 * 1000 + 999)}
   \<and> (s \<le> e \<and> l \<in> set ls \<and> log_timestamp l \<noteq> 0
        \<and> log_timestamp l = localMidnight tz e + (23 * 3600000 + 59 * 60000 + 59 * 1000 + 999)
        \<longrightarrow> l \<in> set (fst (filteredData now tz ls rs (Ymd s) (Ymd e))))
   \<and> (log_timestamp l \<noteq> 0
        \<and> log_timestamp l = localMidnight tz e + (23 * 3600000 + 59 * 60000 + 59 * 1000 + 999) + 1
        \<longrightarrow> l \<notin> set (fst (filteredData now tz ls rs (Ymd s) (Ymd e))))
   \<and> (s \<le> e \<and> r \<in> set rs
        \<and> rev_timestamp r = localMidnight tz e + (23 * 3600000 + 59 * 60000 + 59 * 1000 + 999)
        \<longrightarrow> r \<in> set (snd (filteredData now tz ls rs (Ymd s) (Ymd e))))
   \<and> (rev_timestamp r = localMidnight tz e + (23 * 3600000 + 59 * 60000 + 59 * 1000 + 999) + 1
        \<longrightarrow> r \<notin> set (snd (filteredData now tz ls rs (Ymd s) (Ymd e))))
   \<and> (l \<in> set ls \<and> log_timestamp l = 0
        \<longrightarrow> (l \<in> set (fst (filteredData now tz ls rs (Ymd s) (Ymd e)))
              \<longleftrightarrow> s \<le> log_date l \<and> log_date l \<le> e))
   \<and> (0 \<le> tz \<and> tz < msPerDay \<longrightarrow>
        logsInRange tz ls (Ymd s) (Ymd e) = fst (filteredData now tz ls rs (Ymd s) (Ymd e))
        \<and> set (reviewsInRange tz rs (Ymd s) (Ymd e)) = set (snd (filteredData now tz ls rs (Ymd s) (Ymd e))))"
proof -
  have k: "(23 * 3600000 + 59 * 60000 + 59 * 1000 + 999 :: int) = msPerDay - 1"
    by (simp add: msPerDay_def)
  have le: "s \<le> e \<Longrightarrow> localMidnight tz s \<le> localMidnight tz e + (msPerDay - 1)"
    unfolding localMidnight_def msPerDay_def by arith
  have a: "fst (filteredData now tz ls rs (Ymd s) (Ymd e))
     = filter (\<lambda>l. localMidnight tz s
                     \<le> (if log_timestamp l \<noteq> 0 then log_timestamp l else localMidnight tz (log_date l))
                   \<and> (if log_timestamp l \<noteq> 0 then log_timestamp l else localMidnight tz (log_date l))
                     \<le> localMidnight tz e + (msPerDay - 1)) ls"
    by (simp add: filteredData_def periodLogs_eq)
  have b: "set (snd (filteredData now tz ls rs (Ymd s) (Ymd e)))
     = {r \<in> set rs. localMidnight tz s \<le> rev_timestamp r
          \<and> rev_timestamp r \<le> localMidnight tz e + (msPerDay - 1)}"
    by (simp add: filteredData_def periodReviews_set)
  have c: "s \<le> e \<and> l \<in> set ls \<and> log_timestamp l \<noteq> 0
        \<and> log_timestamp l = localMidnight tz e + (msPerDay - 1)
        \<longrightarrow> l \<in> set (fst (filteredData now tz ls rs (Ymd s) (Ymd e)))"
    using le by (simp add: a)
  have d: "log_timestamp l \<noteq> 0 \<and> log_timestamp l = localMidnight tz e + (msPerDay - 1) + 1
        \<longrightarrow> l \<notin> set (fst (filteredData now tz ls rs (Ymd s) (Ymd e)))"
    by (simp add: a)
  have c': "s \<le> e \<and> r \<in> set rs \<and> rev_timestamp r = localMidnight tz e + (msPerDay - 1)
        \<longrightarrow> r \<in> set (snd (filteredData now tz ls rs (Ymd s) (Ymd e)))"
    using le by (simp add: b)
  have d': "rev_timestamp r = localMidnight tz e + (msPerDay - 1) + 1
        \<longrightarrow> r \<notin> set (snd (filteredData now tz ls rs (Ymd s) (Ymd e)))"
    by (simp add: b)
  have f: "l \<in> set ls \<and> log_timestamp l = 0
        \<longrightarrow> (l \<in> set (fst (filteredData now tz ls rs (Ymd s) (Ymd e)))
              \<longleftrightarrow> s \<le> log_date l \<and> log_date l \<le> e)"
    by (simp add: a fallback_local)
  have g: "0 \<le> tz \<and> tz < msPerDay \<longrightarrow>
        logsInRange tz ls (Ymd s) (Ymd e) = fst (filteredData now tz ls rs (Ymd s) (Ymd e))
        \<and> set (reviewsInRange tz rs (Ymd s) (Ymd e)) = set (snd (filteredData now tz ls rs (Ymd s) (Ymd e)))"
  proof
    assume h: "0 \<le> tz \<and> tz < msPerDay"
    then have h1: "0 \<le> tz" and h2: "tz < msPerDay" by simp_all
    have "logsInRange tz ls (Ymd s) (Ymd e) = periodLogs now tz ls (Ymd s) (Ymd e)"
      using range_decision_east(1)[OF h1 h2] by simp
    moreover have "set (reviewsInRange tz rs (Ymd s) (Ymd e)) = set (periodReviews now tz rs (Ymd s) (Ymd e))"
      by (auto simp add: reviewsInRange_east[OF h1 h2] periodReviews_set)
    ultimately show "logsInRange tz ls (Ymd s) (Ymd e) = fst (filteredData now tz ls rs (Ymd s) (Ymd e))
        \<and> set (reviewsInRange tz rs (Ymd s) (Ymd e)) = set (snd (filteredData now tz ls rs (Ymd s) (Ymd e)))"
      by (simp add: filteredData_def)
  qed
  from a b c d c' d' f g show ?thesis unfolding k by blast
qed


theorem filteredData_inclusive_range_witness:
  "fst (filteredData 0 tzEast
          [logAt tzEast ''e'' 19724 86399999, logAt tzEast ''f'' 19725 0, undatedLog] []
          (Ymd 19724) (Ymd 19724))
     = [logAt tzEast ''e'' 19724 86399999, undatedLog]
   \<and> logsInRange tzEast
          [logAt tzEast ''e'' 19724 86399999, logAt tzEast ''f'' 19725 0, undatedLog]
          (Ymd 19724) (Ymd 19724)
     = [logAt tzEast ''e'' 19724 86399999, undatedLog]"
proof -
  have z: "(0::int) \<le> tzEast \<and> tzEast < msPerDay" by (simp add: tzEast_def msPerDay_def)
  have t: "log_timestamp (logAt tzEast ''e'' 19724 86399999) = 1704211199999"
          "log_timestamp (logAt tzEast ''f'' 19725 0) = 1704211200000"
          "log_timestamp undatedLog = 0" "log_date undatedLog = 19724"
          "localMidnight tzEast 19724 = 1704124800000"
    by (simp_all add: logAt_def mkLog_def undatedLog_def localMidnight_def msPerDay_def tzEast_def)
  show ?thesis
    using z filteredData_inclusive_range[where now = 0 and tz = tzEast and s = 19724 and e = 19724
            and rs = "[]"
            and ls = "[logAt tzEast ''e'' 19724 86399999, logAt tzEast ''f'' 19725 0, undatedLog]"]
    by (simp add: t)
qed

text \<open>
  The claim as stated fails on a note without timestamp whose date field lies in the range:
  neither the filter nor the estimator matches it, for its date field is never read.
\<close>

theorem undated_note_counterexample:
  "rev_timestamp undatedNote = 0 \<and> rev_date undatedNote = ''2024-01-02 10:00:00''
   \<and> snd (filteredData 0 tzEast [] [undatedNote] (Ymd 19724) (Ymd 19724)) = []
   \<and> reviewsInRange tzEast [undatedNote] (Ymd 19724) (Ymd 19724) = []"
proof -
  have t: "localMidnight tzEast 19724 = 1704124800000"
    by (simp add: localMidnight_def msPerDay_def tzEast_def)
  have u: "rev_timestamp undatedNote = 0 \<and> rev_date undatedNote = ''2024-01-02 10:00:00''"
    by (simp add: undatedNote_def)
  have "set (periodReviews 0 tzEast [undatedNote] (Ymd 19724) (Ymd 19724)) = {}"
    by (simp add: periodReviews_set u t)
  then have a: "snd (filteredData 0 tzEast [] [undatedNote] (Ymd 19724) (Ymd 19724)) = []"
    by (simp add: filteredData_def)
  have b: "reviewsInRange tzEast [undatedNote] (Ymd 19724) (Ymd 19724) = []"
    by (simp add: reviewsInRange_def rangeStart_def rangeEnd_def sample_time Let_def u)
  from u a b show ?thesis by simp
qed

section \<open>Chart buckets\<close>























section \<open>Streak\<close>




lemma newYork2024_sel:
  "midnightOf newYork2024 d = d * msPerDay + (if 19793 \<le> d \<and> d \<le> 20030 then 14400000 else 18000000)"
  "dayOf newYork2024 t
     = (t - (if 1710054000000 \<le> t \<and> t < 1730613600000 then 14400000 else 18000000)) div msPerDay"
  by (simp_all add: newYork2024_def)








text \<open>
  The quotient \<^verbatim>\<open>diffTime / (1000 * 3600 * 24)\<close> is taken exactly in \<open>calculateStreak\<close>.
  The double that the runtime computes for it exceeds 1 for the same differences, as long as
  they are below \<open>2^53\<close> milliseconds.
\<close>

lemma rnd_same: "valof (rnd 86400000 86400000) = 1"
  by (simp add: valof_def rnd_def rndPos_def scale_def roundEven_def Let_def bits.simps)

lemma diffDays_double:
  assumes nb: "n < 2 ^ 53"
  shows "(1 < valof (fdiv (ofInt n) (ofInt (1000 * 3600 * 24))))
           \<longleftrightarrow> (1 < real_of_int n / (1000 * 3600 * 24))"
proof -
  define d :: int where "d = 86400000"
  define x where "x = real_of_int n / real_of_int d"
  define v where "v = valof (rnd n d)"
  define u :: real where "u = 1 / 2 ^ 53"
  have d0: "0 < d" by (simp add: d_def)
  have f: "fdiv (ofInt n) (ofInt (1000 * 3600 * 24)) = rnd n d"
    "fdiv (ofInt n) (ofInt 86400000) = rnd n d"
    by (simp_all add: fdiv_def ofInt_def d_def)
  have "\<bar>v - x\<bar> \<le> \<bar>x\<bar> / 2 ^ 53" unfolding v_def x_def by (rule rnd_val(2)[OF d0])
  then have e: "\<bar>v - x\<bar> \<le> \<bar>x\<bar> * u" by (simp add: u_def)
  have u1: "0 < u" "u < 1" "u * real_of_int d < 1" by (simp_all add: u_def d_def)
  have rd: "real_of_int d = 86400000" by (simp add: d_def)
  have "(1 < v) \<longleftrightarrow> (1 < x)"
  proof -
    consider "n \<le> 0" | "0 < n" "n < d" | "n = d" | "d < n" by arith
    then show ?thesis
    proof cases
      case 1
      then have x0: "x \<le> 0" using d0 by (simp add: x_def divide_nonpos_pos)
      have "(- x) * u \<le> (- x) * 1" using x0 u1 by (intro mult_left_mono) simp_all
      then have "\<bar>x\<bar> * u \<le> - x" using x0 by simp
      then have "v \<le> 0" using e x0 by linarith
      then show ?thesis using x0 by simp
    next
      case 2
      then have "n \<le> d - 1" by simp
      then have "real_of_int n \<le> real_of_int (d - 1)" by (simp only: of_int_le_iff)
      then have "x \<le> (real_of_int d - 1) / real_of_int d" using d0 by (simp add: x_def divide_right_mono)
      then have xl: "x \<le> 1 - 1 / 86400000" by (simp add: rd)
      have x0: "0 \<le> x" using 2 d0 by (simp add: x_def)
      have "x * u \<le> (1 - 1 / 86400000) * u" using xl u1 by (intro mult_right_mono) simp_all
      also have "\<dots> < 1 / 86400000" by (simp add: u_def)
      finally have "x + x * u < 1" using xl by linarith
      moreover have "v \<le> x + x * u" using e x0 by (simp add: abs_le_iff)
      ultimately show ?thesis using xl by simp
    next
      case 3
      then have "v = 1" by (simp add: v_def d_def rnd_same)
      moreover have "x = 1" using 3 d0 by (simp add: x_def)
      ultimately show ?thesis by simp
    next
      case 4
      then have "d + 1 \<le> n" by simp
      then have "real_of_int (d + 1) \<le> real_of_int n" by (simp only: of_int_le_iff)
      then have "(real_of_int d + 1) / real_of_int d \<le> x" using d0 by (simp add: x_def divide_right_mono)
      then have xl: "1 + 1 / 86400000 \<le> x" by (simp add: rd)
      have "real_of_int n < 2 ^ 53" using nb by (metis of_int_less_iff of_int_numeral of_int_power)
      then have "real_of_int n * u < 1" by (simp add: u_def)
      then have "real_of_int n * u / real_of_int d < 1 / real_of_int d"
        using d0 by (simp add: divide_strict_right_mono)
      then have "x * u < 1 / 86400000" by (simp add: x_def rd)
      moreover have "x - x * u \<le> v" using e xl by (simp add: abs_le_iff)
      ultimately have "1 < v" using xl by linarith
      then show ?thesis using xl by simp
    qed
  qed
  then show ?thesis by (simp add: f v_def x_def rd)
qed








text \<open>
  The day after the clocks are set back. In New York at noon of 2024-11-04, with one log
  written at noon of 2024-11-03, the most recent active day is yesterday, yet the streak
  computed is 0: the two local midnights are 25 hours apart, and the code compares their
  distance with 24 hours.
\<close>

lemma streak_after_fall_back:
  "dayOf newYork2024 nyNoon = 20031
   \<and> log_date fallBackLog = 20030
   \<and> dayOf newYork2024 (log_timestamp fallBackLog) = 20030
   \<and> midnightOf newYork2024 20031 - midnightOf newYork2024 20030 = 90000000
   \<and> calculateStreak nyNoon newYork2024 [fallBackLog] = 0"
  by (simp add: calculateStreak_def Let_def zSetHours0_def newYork2024_sel nyNoon_def fallBackLog_def
        mkLog_def msPerDay_def)

end
